theory Spec2Isabelle
  imports Main "HOL-Library.Word"
begin

unbundle bit_operations_syntax

section \<open>Machine data\<close>

text \<open>
  The target is a 32-bit STM32 micro-controller: \<open>uint8_t\<close> is an \<open>8 word\<close>,
  \<open>uint32_t\<close> and every pointer a \<open>32 word\<close>; the memory is little-endian.
\<close>

type_synonym byte = "8 word"
type_synonym u32 = "32 word"

text \<open>
  Modelled from the spec: the union \<open>split32_t\<close> and the index macros \<open>SPLIT_T0\<close>,
  \<open>SPLIT_T1\<close>, \<open>SPLIT_T2\<close> of utilities.h, which is not under src/. The union overlays
  a \<open>uint32_t\<close> with its four bytes \<open>b[0..3]\<close>; the spec says that the command carries
  the address "most-significant byte first", so \<open>b[SPLIT_Tk]\<close> is the byte of weight
  \<open>2 ^ (8 * k)\<close>, which on the little-endian target is the byte at index \<open>k\<close>.
\<close>

definition split32_b :: "u32 \<Rightarrow> nat \<Rightarrow> byte" where
  "split32_b v k = ucast (drop_bit (8 * k) v)"

definition SPLIT_T0 :: nat where "SPLIT_T0 = 0"
definition SPLIT_T1 :: nat where "SPLIT_T1 = 1"
definition SPLIT_T2 :: nat where "SPLIT_T2 = 2"

section \<open>Authorization helpers (littlefs.h)\<close>

text \<open>
  The macros \<open>LfsUserAuth\<close>, \<open>LfsMNFAuth\<close>, \<open>LfsBPAuth\<close> and \<open>LfsSysAuth\<close>
  of littlefs.h, applied to the \<open>uint8_t authorization\<close> field of a file record.
  \<open>x >> k\<close> on an unsigned byte is \<open>drop_bit k x\<close>.
\<close>

definition LfsUserAuth :: "byte \<Rightarrow> byte" where
  "LfsUserAuth x = x AND 0x03"

definition LfsMNFAuth :: "byte \<Rightarrow> byte" where
  "LfsMNFAuth x = (drop_bit 2 x) AND 0x03"

definition LfsBPAuth :: "byte \<Rightarrow> byte" where
  "LfsBPAuth x = (drop_bit 4 x) AND 0x03"

definition LfsSysAuth :: "byte \<Rightarrow> byte" where
  "LfsSysAuth x = (drop_bit 6 x) AND 0x03"

section \<open>The flash driver (IS25LP080D_driver.c)\<close>

subsection \<open>Constants\<close>

definition CMD_READ :: byte where "CMD_READ = 0x03"
definition CMD_WRITE_ENABLE :: byte where "CMD_WRITE_ENABLE = 0x06"
definition CMD_PAGE_PROGRAM :: byte where "CMD_PAGE_PROGRAM = 0x02"
definition CMD_SECTOR_ERASE :: byte where "CMD_SECTOR_ERASE = 0x20"
definition CMD_BLOCK_ERASE :: byte where "CMD_BLOCK_ERASE = 0xD8"
definition CMD_READ_STATUS :: byte where "CMD_READ_STATUS = 0x05"
definition IS25LP080D_ERROR :: int where "IS25LP080D_ERROR = -5"

text \<open>
  The initialiser \<open>{opcode, b[SPLIT_T2], b[SPLIT_T1], b[SPLIT_T0]}\<close> of the four-byte
  array \<open>cmd\<close>, which \<open>IS25LP080D_Read\<close>, \<open>IS25LP080D_Program\<close> and
  \<open>IS25LP080D_Erase\<close> each write out.
\<close>

definition cmd_frame :: "byte \<Rightarrow> u32 \<Rightarrow> byte list" where
  "cmd_frame opcode addr =
     [opcode, split32_b addr SPLIT_T2, split32_b addr SPLIT_T1, split32_b addr SPLIT_T0]"

subsection \<open>The world outside the driver\<close>

text \<open>
  The SPI transport (spi.h), the software timer (swtimer.h) and the two diagnostic hooks
  are not under src/. The transport and the timer are parameters of the model: a record
  of functions over a device state \<open>'d\<close> of any type, so that every theorem holds for
  every transport and timer, failing ones included. Every call the driver makes is also
  written to a trace, in order, with what the call returned. The hooks \<open>RTT_Printf\<close>
  and \<open>ManageEventError\<close> return nothing to the driver; they appear in the trace with
  the arguments that vary (the event codes are constants).
\<close>

datatype event =
    CS_Enable
  | CS_Disable
  | Transmit "byte list" bool
  | Receive nat "byte list" bool
  | Load_Timer
  | Timer_Timeout bool
  | RTT_Printf byte
  | ManageEventError bool byte

record 'd services =
  spi_transmit :: "byte list \<Rightarrow> 'd \<Rightarrow> bool \<times> 'd"
  spi_receive :: "nat \<Rightarrow> 'd \<Rightarrow> (bool \<times> byte list) \<times> 'd"
  spi_cs_enable :: "'d \<Rightarrow> 'd"
  spi_cs_disable :: "'d \<Rightarrow> 'd"
  load_sw_timer :: "'d \<Rightarrow> 'd"
  sw_timer_timeout :: "'d \<Rightarrow> bool \<times> 'd"

record 'd world =
  trace :: "event list"
  dev :: 'd

definition emit :: "event \<Rightarrow> 'd world \<Rightarrow> 'd world" where
  "emit e w = w\<lparr>trace := trace w @ [e]\<rparr>"

definition SPI_CS_Enable :: "'d services \<Rightarrow> 'd world \<Rightarrow> 'd world" where
  "SPI_CS_Enable S w = emit CS_Enable (w\<lparr>dev := spi_cs_enable S (dev w)\<rparr>)"

definition SPI_CS_Disable :: "'d services \<Rightarrow> 'd world \<Rightarrow> 'd world" where
  "SPI_CS_Disable S w = emit CS_Disable (w\<lparr>dev := spi_cs_disable S (dev w)\<rparr>)"

definition SPI_Transmit :: "'d services \<Rightarrow> byte list \<Rightarrow> 'd world \<Rightarrow> bool \<times> 'd world" where
  "SPI_Transmit S buf w =
     (let (ok, d) = spi_transmit S buf (dev w)
      in (ok, emit (Transmit buf ok) (w\<lparr>dev := d\<rparr>)))"

text \<open>
  \<open>SPI_Receive(line, buffer, n)\<close> writes into the caller's buffer: at most \<open>n\<close> of the
  bytes the transport delivers replace the front of the buffer.
\<close>

definition rx_into :: "nat \<Rightarrow> byte list \<Rightarrow> byte list \<Rightarrow> byte list" where
  "rx_into n data buffer = take n data @ drop (length (take n data)) buffer"

definition SPI_Receive ::
  "'d services \<Rightarrow> byte list \<Rightarrow> nat \<Rightarrow> 'd world \<Rightarrow> (bool \<times> byte list) \<times> 'd world" where
  "SPI_Receive S buffer n w =
     (let ((ok, data), d) = spi_receive S n (dev w)
      in ((ok, rx_into n data buffer), emit (Receive n (take n data) ok) (w\<lparr>dev := d\<rparr>)))"

definition LoadSWTimer :: "'d services \<Rightarrow> 'd world \<Rightarrow> 'd world" where
  "LoadSWTimer S w = emit Load_Timer (w\<lparr>dev := load_sw_timer S (dev w)\<rparr>)"

text \<open>\<open>SWTimerTimeout(&busyTimeout, IS25LP080D_BUSY_TIMEOUT_MSEC, mSec, NULL)\<close>.\<close>

definition SWTimerTimeout :: "'d services \<Rightarrow> 'd world \<Rightarrow> bool \<times> 'd world" where
  "SWTimerTimeout S w =
     (let (expired, d) = sw_timer_timeout S (dev w)
      in (expired, emit (Timer_Timeout expired) (w\<lparr>dev := d\<rparr>)))"

text \<open>
  Modelled from the spec: the macro \<open>assert_param\<close> of stm32_assert.h, which is not under
  src/. The spec (section 7) says that a violated precondition terminates execution: the
  call ends with \<open>Assert_failed\<close> and has touched nothing.
\<close>

datatype error = Assert_failed

subsection \<open>The busy-wait\<close>

text \<open>
  The \<open>do ... while (status & 0x01)\<close> loop of \<open>IS25LP080D_WaitWhileBusy\<close>: one call
  of \<open>busy_loop\<close> is one run of the body, with the local \<open>status\<close> as it stands on
  entry. The loop has no bound of its own (it ends when the timer reports expiry, when
  the transport fails or when the device reports ready), so it is a partial function:
  \<open>None\<close> is a loop that never returns.
\<close>

partial_function (option) busy_loop ::
  "'d services \<Rightarrow> byte \<Rightarrow> byte \<Rightarrow> 'd world \<Rightarrow> (int \<times> 'd world) option" where
  "busy_loop S memOpcode status w =
     (let (expired, w1) = SWTimerTimeout S w in
      if expired then
        Some (IS25LP080D_ERROR,
              emit (ManageEventError True memOpcode) (emit (RTT_Printf memOpcode) w1))
      else
        let w2 = SPI_CS_Enable S w1;
            (tx_ok, w3) = SPI_Transmit S [CMD_READ_STATUS] w2
        in if \<not> tx_ok then Some (IS25LP080D_ERROR, SPI_CS_Disable S w3)
           else
             let ((rx_ok, sbuf), w4) = SPI_Receive S [status] 1 w3
             in if \<not> rx_ok then Some (IS25LP080D_ERROR, SPI_CS_Disable S w4)
                else
                  let w5 = SPI_CS_Disable S w4
                  in if hd sbuf AND 0x01 \<noteq> 0 then busy_loop S memOpcode (hd sbuf) w5
                     else Some (0, w5))"

declare busy_loop.simps [code]

definition IS25LP080D_WaitWhileBusy ::
  "'d services \<Rightarrow> byte \<Rightarrow> 'd world \<Rightarrow> (int \<times> 'd world) option" where
  "IS25LP080D_WaitWhileBusy S memOpcode w = busy_loop S memOpcode 0 (LoadSWTimer S w)"

text \<open>The \<open>int\<close> a function returns, as the result of a call that did return.\<close>

definition returned :: "(int \<times> 'd world) option \<Rightarrow> ((error + int) \<times> 'd world) option" where
  "returned res = map_option (\<lambda>(r, w). (Inr r, w)) res"

subsection \<open>Read, program, erase, sync\<close>

text \<open>
  The unused \<open>context\<close> argument is left out. A buffer argument is \<open>None\<close> for a null
  pointer and otherwise the bytes it points to; the caller provides at least \<open>size\<close> of
  them. \<open>IS25LP080D_Read\<close> also returns the buffer as the call leaves it.
\<close>

definition IS25LP080D_Read ::
  "'d services \<Rightarrow> u32 \<Rightarrow> byte list option \<Rightarrow> u32 \<Rightarrow> 'd world
    \<Rightarrow> (error + int) \<times> byte list option \<times> 'd world" where
  "IS25LP080D_Read S addr buffer sz w =
     (case buffer of
        None \<Rightarrow> (Inl Assert_failed, buffer, w)
      | Some buf \<Rightarrow>
          if \<not> addr < 0x100000 then (Inl Assert_failed, buffer, w)
          else if \<not> sz \<le> 0x100000 then (Inl Assert_failed, buffer, w)
          else
            let cmd = cmd_frame CMD_READ addr;
                w1 = SPI_CS_Enable S w;
                (tx_ok, w2) = SPI_Transmit S cmd w1
            in if \<not> tx_ok then (Inr IS25LP080D_ERROR, buffer, SPI_CS_Disable S w2)
               else
                 let ((rx_ok, buf'), w3) = SPI_Receive S buf (unat sz) w2
                 in if \<not> rx_ok then (Inr IS25LP080D_ERROR, Some buf', SPI_CS_Disable S w3)
                    else (Inr 0, Some buf', SPI_CS_Disable S w3))"

definition IS25LP080D_Program ::
  "'d services \<Rightarrow> u32 \<Rightarrow> byte list option \<Rightarrow> u32 \<Rightarrow> 'd world
    \<Rightarrow> ((error + int) \<times> 'd world) option" where
  "IS25LP080D_Program S addr buffer sz w =
     (case buffer of
        None \<Rightarrow> Some (Inl Assert_failed, w)
      | Some buf \<Rightarrow>
          if \<not> addr < 0x100000 then Some (Inl Assert_failed, w)
          else if \<not> sz \<le> 0x100000 then Some (Inl Assert_failed, w)
          else
            let cmd = cmd_frame CMD_PAGE_PROGRAM addr;
                wren = CMD_WRITE_ENABLE;
                w1 = SPI_CS_Enable S w;
                (en_ok, w2) = SPI_Transmit S [wren] w1
            in if \<not> en_ok then Some (Inr IS25LP080D_ERROR, SPI_CS_Disable S w2)
               else
                 let w3 = SPI_CS_Disable S w2;
                     w4 = SPI_CS_Enable S w3;
                     (cmd_ok, w5) = SPI_Transmit S cmd w4
                 in if \<not> cmd_ok then Some (Inr IS25LP080D_ERROR, SPI_CS_Disable S w5)
                    else
                      let (data_ok, w6) = SPI_Transmit S (take (unat sz) buf) w5
                      in if \<not> data_ok then Some (Inr IS25LP080D_ERROR, SPI_CS_Disable S w6)
                         else
                           let w7 = SPI_CS_Disable S w6
                           in returned (IS25LP080D_WaitWhileBusy S CMD_PAGE_PROGRAM w7))"

text \<open>
  \<open>IS25LP080D_Erase\<close> from the comment "Enable write" to its end, as a function of the
  array \<open>cmd\<close> that the size test has completed.
\<close>

definition erase_send ::
  "'d services \<Rightarrow> byte list \<Rightarrow> 'd world \<Rightarrow> ((error + int) \<times> 'd world) option" where
  "erase_send S cmd w =
     (let wren = CMD_WRITE_ENABLE;
          w1 = SPI_CS_Enable S w;
          (en_ok, w2) = SPI_Transmit S [wren] w1
      in if \<not> en_ok then Some (Inr IS25LP080D_ERROR, SPI_CS_Disable S w2)
         else
           let w3 = SPI_CS_Disable S w2;
               w4 = SPI_CS_Enable S w3;
               (cmd_ok, w5) = SPI_Transmit S cmd w4
           in if \<not> cmd_ok then Some (Inr IS25LP080D_ERROR, SPI_CS_Disable S w5)
              else
                let w6 = SPI_CS_Disable S w5
                in returned (IS25LP080D_WaitWhileBusy S (cmd ! 0) w6))"

definition IS25LP080D_Erase ::
  "'d services \<Rightarrow> u32 \<Rightarrow> u32 \<Rightarrow> 'd world \<Rightarrow> ((error + int) \<times> 'd world) option" where
  "IS25LP080D_Erase S addr sz w =
     (if \<not> addr < 0x100000 then Some (Inl Assert_failed, w)
      else if \<not> sz \<le> 0x100000 then Some (Inl Assert_failed, w)
      else
        let cmd = cmd_frame 0 addr
        in if sz = 4096 then erase_send S (cmd[0 := CMD_SECTOR_ERASE]) w
           else if sz = 65536 then erase_send S (cmd[0 := CMD_BLOCK_ERASE]) w
           else Some (Inr IS25LP080D_ERROR, w))"

definition IS25LP080D_Sync :: "'d world \<Rightarrow> int \<times> 'd world" where
  "IS25LP080D_Sync w = (0, w)"

subsection \<open>What a trace shows\<close>

text \<open>
  \<open>cs_run sel t\<close> follows the chip-select line through the trace \<open>t\<close>, starting
  selected or not: it is \<open>None\<close> when the line is asserted while asserted, released
  while released, or when a byte moves while the device is not selected, and otherwise
  the state of the line at the end.
\<close>

fun cs_run :: "bool \<Rightarrow> event list \<Rightarrow> bool option" where
  "cs_run sel [] = Some sel"
| "cs_run sel (CS_Enable # es) = (if sel then None else cs_run True es)"
| "cs_run sel (CS_Disable # es) = (if sel then cs_run False es else None)"
| "cs_run sel (Transmit buf ok # es) = (if sel then cs_run sel es else None)"
| "cs_run sel (Receive n d ok # es) = (if sel then cs_run sel es else None)"
| "cs_run sel (e # es) = cs_run sel es"

definition cs_matched :: "event list \<Rightarrow> bool" where
  "cs_matched t = (cs_run False t = Some False)"

fun is_hook :: "event \<Rightarrow> bool" where
  "is_hook (RTT_Printf opc) = True"
| "is_hook (ManageEventError flag opc) = True"
| "is_hook e = False"

definition hooks :: "event list \<Rightarrow> event list" where
  "hooks t = filter is_hook t"

definition timed_out :: "event list \<Rightarrow> bool" where
  "timed_out t = (Timer_Timeout True \<in> set t)"

text \<open>
  The hooks of a trace are the two timeout reports for \<open>memOpcode\<close>, in the order
  emitter then error manager, when the timer has reported expiry, and none otherwise.
\<close>

definition reported :: "byte \<Rightarrow> event list \<Rightarrow> bool" where
  "reported memOpcode t =
     (hooks t = (if timed_out t then [RTT_Printf memOpcode, ManageEventError True memOpcode] else []))"

text \<open>
  The traces of the loop and their results: \<open>busy_run memOpcode status t r\<close> when a loop
  entered with \<open>status\<close> can leave the trace \<open>t\<close> and return \<open>r\<close>. A received status
  byte \<open>d\<close> (at most one byte) replaces the local \<open>status\<close>.
\<close>

inductive busy_run :: "byte \<Rightarrow> byte \<Rightarrow> event list \<Rightarrow> int \<Rightarrow> bool" for memOpcode where
  expired: "busy_run memOpcode status
      [Timer_Timeout True, RTT_Printf memOpcode, ManageEventError True memOpcode] IS25LP080D_ERROR"
| tx_failed: "busy_run memOpcode status
      [Timer_Timeout False, CS_Enable, Transmit [CMD_READ_STATUS] False, CS_Disable] IS25LP080D_ERROR"
| rx_failed: "busy_run memOpcode status
      [Timer_Timeout False, CS_Enable, Transmit [CMD_READ_STATUS] True, Receive 1 d False, CS_Disable]
      IS25LP080D_ERROR"
| ready: "hd (d @ [status]) AND 0x01 = 0 \<Longrightarrow> busy_run memOpcode status
      [Timer_Timeout False, CS_Enable, Transmit [CMD_READ_STATUS] True, Receive 1 d True, CS_Disable] 0"
| again: "hd (d @ [status]) AND 0x01 \<noteq> 0 \<Longrightarrow> busy_run memOpcode (hd (d @ [status])) t r \<Longrightarrow>
    busy_run memOpcode status
      (Timer_Timeout False # CS_Enable # Transmit [CMD_READ_STATUS] True # Receive 1 d True
        # CS_Disable # t) r"

code_pred (modes: i \<Rightarrow> i \<Rightarrow> i \<Rightarrow> i \<Rightarrow> bool) busy_run .

subsection \<open>A transport and a timer to run the driver on\<close>

text \<open>
  \<open>stub tx_ok limit status\<close>: every transmit returns \<open>tx_ok\<close>, every receive succeeds
  and delivers the byte \<open>status\<close>, and the timer reports expiry from its check number
  \<open>limit\<close> on (counted from 0 since the timer was loaded). The device state counts the
  timer checks.
\<close>

definition stub :: "bool \<Rightarrow> nat \<Rightarrow> byte \<Rightarrow> nat services" where
  "stub tx_ok limit status =
     \<lparr> spi_transmit = (\<lambda>buf d. (tx_ok, d)),
       spi_receive = (\<lambda>n d. ((True, replicate n status), d)),
       spi_cs_enable = (\<lambda>d. d),
       spi_cs_disable = (\<lambda>d. d),
       load_sw_timer = (\<lambda>d. 0),
       sw_timer_timeout = (\<lambda>d. (limit \<le> d, Suc d)) \<rparr>"

definition idle :: "nat world" where
  "idle = \<lparr> trace = [], dev = 0 \<rparr>"

definition program_tx_failure :: "nat world" where
  "program_tx_failure = \<lparr>trace = [CS_Enable, Transmit [0x06] False, CS_Disable], dev = 0\<rparr>"

definition erase_done :: "nat world" where
  "erase_done = \<lparr>trace = [CS_Enable, Transmit [0x06] True, CS_Disable,
          CS_Enable, Transmit [0x20, 0x01, 0x23, 0x45] True, CS_Disable,
          Load_Timer, Timer_Timeout False,
          CS_Enable, Transmit [0x05] True, Receive 1 [0] True, CS_Disable], dev = 1\<rparr>"

definition wait_timed_out :: "nat world" where
  "wait_timed_out = \<lparr>trace = [Load_Timer,
     Timer_Timeout False, CS_Enable, Transmit [0x05] True, Receive 1 [1] True, CS_Disable,
     Timer_Timeout False, CS_Enable, Transmit [0x05] True, Receive 1 [1] True, CS_Disable,
     Timer_Timeout True, RTT_Printf 0x02, ManageEventError True 0x02], dev = 3\<rparr>"

definition program_timed_out :: "nat world" where
  "program_timed_out = \<lparr>trace = [CS_Enable, Transmit [0x06] True, CS_Disable,
     CS_Enable, Transmit [0x02, 0x01, 0x23, 0x45] True, Transmit [0xAA, 0xBB] True, CS_Disable,
     Load_Timer,
     Timer_Timeout False, CS_Enable, Transmit [0x05] True, Receive 1 [1] True, CS_Disable,
     Timer_Timeout False, CS_Enable, Transmit [0x05] True, Receive 1 [1] True, CS_Disable,
     Timer_Timeout True, RTT_Printf 0x02, ManageEventError True 0x02], dev = 3\<rparr>"

text \<open>The three facts about the hooks of a trace \<open>t\<close> and the result \<open>r\<close> of a call, together.\<close>

definition report_ok :: "byte \<Rightarrow> event list \<Rightarrow> error + int \<Rightarrow> bool" where
  "report_ok memOpcode t r =
     (reported memOpcode t \<and> (if timed_out t then r = Inr IS25LP080D_ERROR else True)
      \<and> (if r = Inr 0 then hooks t = [] else True))"

subsection \<open>Describing a run\<close>

text \<open>
  \<open>after w es d\<close> is the world \<open>w\<close> once the events \<open>es\<close> have happened and have left
  the device in state \<open>d\<close>.
\<close>

definition after :: "'d world \<Rightarrow> event list \<Rightarrow> 'd \<Rightarrow> 'd world" where
  "after w es d = \<lparr>trace = trace w @ es, dev = d\<rparr>"

text \<open>
  The events of one iteration of the busy-wait that reads the status byte \<open>s\<close>, the events
  of its timeout path, and the events of the transmissions that precede the busy-wait in
  an erase and in a program whose transmissions all succeed.
\<close>

definition poll_events :: "byte \<Rightarrow> event list" where
  "poll_events s =
     [Timer_Timeout False, CS_Enable, Transmit [CMD_READ_STATUS] True, Receive 1 [s] True,
      CS_Disable]"

definition timeout_events :: "byte \<Rightarrow> event list" where
  "timeout_events memOpcode =
     [Timer_Timeout True, RTT_Printf memOpcode, ManageEventError True memOpcode]"

definition erase_events :: "byte list \<Rightarrow> event list" where
  "erase_events cmd =
     [CS_Enable, Transmit [CMD_WRITE_ENABLE] True, CS_Disable,
      CS_Enable, Transmit cmd True, CS_Disable]"

definition program_events :: "byte list \<Rightarrow> byte list \<Rightarrow> event list" where
  "program_events cmd data =
     [CS_Enable, Transmit [CMD_WRITE_ENABLE] True, CS_Disable,
      CS_Enable, Transmit cmd True, Transmit data True, CS_Disable]"

text \<open>
  \<open>countdown\<close>: a device that answers as many status reads as its state counts with
  \<open>0x01\<close> (write in progress) and every later one with \<open>0x00\<close>, on a transport that never
  fails and with a timer that never reports expiry.
\<close>

definition countdown :: "nat services" where
  "countdown =
     \<lparr> spi_transmit = (\<lambda>buf d. (True, d)),
       spi_receive = (\<lambda>n d. ((True, replicate n (if d = 0 then 0x00 else 0x01)), d - 1)),
       spi_cs_enable = (\<lambda>d. d),
       spi_cs_disable = (\<lambda>d. d),
       load_sw_timer = (\<lambda>d. d),
       sw_timer_timeout = (\<lambda>d. (False, d)) \<rparr>"

section \<open>The file record pool (littlefs.c, littlefs.h)\<close>

subsection \<open>Records as bytes\<close>

text \<open>
  \<open>CP23_GetFileStructure\<close> clears a record through \<open>uint32_t\<close> and \<open>uint8_t\<close>
  pointers and then writes typed fields of the same record, so a record is modelled as
  the list of its bytes, addressed by offset from its first byte. A 32-bit value lies in
  memory least significant byte first. A store outside the list would be a write outside
  the record in C; the model's stores are all inside (lemmas \<open>sizeof_bounds\<close> and
  \<open>descr_at_end\<close> below).
\<close>

type_synonym mem = "byte list"

definition store8 :: "nat \<Rightarrow> byte \<Rightarrow> mem \<Rightarrow> mem" where
  "store8 a v m = m[a := v]"

definition load8 :: "mem \<Rightarrow> nat \<Rightarrow> byte" where
  "load8 m a = m ! a"

definition store32 :: "nat \<Rightarrow> u32 \<Rightarrow> mem \<Rightarrow> mem" where
  "store32 a v m =
     m[a := split32_b v 0, a + 1 := split32_b v 1, a + 2 := split32_b v 2, a + 3 := split32_b v 3]"

definition join32 :: "byte \<Rightarrow> byte \<Rightarrow> byte \<Rightarrow> byte \<Rightarrow> u32" where
  "join32 b0 b1 b2 b3 =
     ucast b0 OR push_bit 8 (ucast b1) OR push_bit 16 (ucast b2) OR push_bit 24 (ucast b3)"

definition load32 :: "mem \<Rightarrow> nat \<Rightarrow> u32" where
  "load32 m a = join32 (m ! a) (m ! (a + 1)) (m ! (a + 2)) (m ! (a + 3))"

subsection \<open>The layout of \<open>cp23lfs_fileStructure_t\<close>\<close>

definition CP23LFS_FILES_MAX :: nat where "CP23LFS_FILES_MAX = 8"
definition CP23LFS_ATTR_NUM :: nat where "CP23LFS_ATTR_NUM = 7"
definition CP23LFS_DATE_LEN :: nat where "CP23LFS_DATE_LEN = 11"
definition CP23LFS_TIME_LEN :: nat where "CP23LFS_TIME_LEN = 9"
definition CP23LFS_OWNER_LEN :: nat where "CP23LFS_OWNER_LEN = 32"
definition CP23LFS_COMPANY_LEN :: nat where "CP23LFS_COMPANY_LEN = 32"

text \<open>
  What littlefs.h leaves open is taken as a parameter: the address of the static array
  \<open>cp23lsf_file\<close>, the constant \<open>CP23LFS_CACHE_SIZE\<close> and the size of the littlefs
  file object \<open>lfs_file_t\<close>.
\<close>

record layout =
  pool_addr :: u32
  CP23LFS_CACHE_SIZE :: nat
  sizeof_lfs_file :: nat

text \<open>
  The members up to \<open>size\<close> are a \<open>uint16_t\<close>, byte arrays and two bytes, so they
  follow each other without padding, and \<open>size\<close> (a \<open>uint32_t\<close>) falls on offset 88.
  These are the values of the tables \<open>parOffset\<close> (the \<open>offsetof\<close> of \<open>dId\<close>,
  \<open>date\<close>, \<open>time\<close>, \<open>flags\<close>, \<open>authorization\<close>, \<open>owner\<close>, \<open>company\<close>) and
  \<open>parSize\<close> (their \<open>sizeof\<close>) of \<open>CP23_GetFileStructure\<close>.
\<close>

definition parOffset :: "nat list" where
  "parOffset = [0, 2, 2 + CP23LFS_DATE_LEN, 2 + CP23LFS_DATE_LEN + CP23LFS_TIME_LEN,
     2 + CP23LFS_DATE_LEN + CP23LFS_TIME_LEN + 1,
     2 + CP23LFS_DATE_LEN + CP23LFS_TIME_LEN + 2,
     2 + CP23LFS_DATE_LEN + CP23LFS_TIME_LEN + 2 + CP23LFS_OWNER_LEN]"

definition parSize :: "nat list" where
  "parSize = [2, CP23LFS_DATE_LEN, CP23LFS_TIME_LEN, 1, 1, CP23LFS_OWNER_LEN, CP23LFS_COMPANY_LEN]"

definition align4 :: "nat \<Rightarrow> nat" where
  "align4 n = 4 * ((n + 3) div 4)"

text \<open>
  The sub-record \<open>system\<close> starts after \<open>size\<close>, at offset 92, with the one-byte
  \<open>bool allocated\<close> and the service buffer. The structures of lfs.h (the littlefs
  library, not under src/) are laid out as the 32-bit target lays them out:
  \<open>struct lfs_attr\<close> is \<open>{uint8_t type; void *buffer; lfs_size_t size;}\<close>, 12 bytes
  with \<open>type\<close> at 0, \<open>buffer\<close> at 4 and \<open>size\<close> at 8; \<open>struct lfs_file_config\<close> is
  \<open>{void *buffer; struct lfs_attr *attrs; lfs_size_t attr_count;}\<close>, 12 bytes with the
  members at 0, 4 and 8. Both hold pointers, so they are aligned to 4 bytes, and so is
  the size of the whole record.
\<close>

definition off_size :: nat where "off_size = 88"
definition off_allocated :: nat where "off_allocated = 92"
definition off_buffer :: nat where "off_buffer = 93"

definition off_descr :: "layout \<Rightarrow> nat" where
  "off_descr L = align4 (off_buffer + CP23LFS_CACHE_SIZE L)"

definition sizeof_lfs_attr :: nat where "sizeof_lfs_attr = 12"

definition off_fileCfg :: "layout \<Rightarrow> nat" where
  "off_fileCfg L = off_descr L + CP23LFS_ATTR_NUM * sizeof_lfs_attr"

definition off_file :: "layout \<Rightarrow> nat" where
  "off_file L = off_fileCfg L + 12"

definition sizeof_fileStructure :: "layout \<Rightarrow> nat" where
  "sizeof_fileStructure L = align4 (off_file L + sizeof_lfs_file L)"

text \<open>The address of \<open>cp23lsf_file[i]\<close> and the offset of \<open>system.descr[k]\<close>.\<close>

definition rec_addr :: "layout \<Rightarrow> nat \<Rightarrow> u32" where
  "rec_addr L i = pool_addr L + of_nat (i * sizeof_fileStructure L)"

definition descr_at :: "layout \<Rightarrow> nat \<Rightarrow> nat" where
  "descr_at L k = off_descr L + k * sizeof_lfs_attr"

definition descr_type :: "layout \<Rightarrow> mem \<Rightarrow> nat \<Rightarrow> byte" where
  "descr_type L m k = load8 m (descr_at L k)"

definition descr_buffer :: "layout \<Rightarrow> mem \<Rightarrow> nat \<Rightarrow> u32" where
  "descr_buffer L m k = load32 m (descr_at L k + 4)"

definition descr_size :: "layout \<Rightarrow> mem \<Rightarrow> nat \<Rightarrow> u32" where
  "descr_size L m k = load32 m (descr_at L k + 8)"

definition fileCfg_buffer :: "layout \<Rightarrow> mem \<Rightarrow> u32" where
  "fileCfg_buffer L m = load32 m (off_fileCfg L)"

definition fileCfg_attrs :: "layout \<Rightarrow> mem \<Rightarrow> u32" where
  "fileCfg_attrs L m = load32 m (off_fileCfg L + 4)"

definition fileCfg_attr_count :: "layout \<Rightarrow> mem \<Rightarrow> u32" where
  "fileCfg_attr_count L m = load32 m (off_fileCfg L + 8)"

text \<open>\<open>system.allocated\<close>: a \<open>bool\<close>, false when its byte is 0; \<open>true\<close> is stored as 1.\<close>

definition allocated :: "mem \<Rightarrow> bool" where
  "allocated m = (load8 m off_allocated \<noteq> 0)"

definition set_allocated :: "bool \<Rightarrow> mem \<Rightarrow> mem" where
  "set_allocated b m = store8 off_allocated (if b then 1 else 0) m"

subsection \<open>The pool and its two operations\<close>

text \<open>
  The pool is the array \<open>cp23lsf_file\<close>: a list of records. A handle
  (\<open>cp23lfs_file_t\<close>, a pointer to a record of the pool) is the index of its record,
  \<open>None\<close> for the null pointer.
\<close>

type_synonym pool = "mem list"

definition pool_ok :: "layout \<Rightarrow> pool \<Rightarrow> bool" where
  "pool_ok L p = (length p = CP23LFS_FILES_MAX \<and> list_all (\<lambda>m. length m = sizeof_fileStructure L) p)"

text \<open>The first \<open>for\<close> loop: the scan for a free record.\<close>

function scan_free :: "pool \<Rightarrow> nat \<Rightarrow> nat option \<times> pool" where
  "scan_free p cnt =
     (if cnt < CP23LFS_FILES_MAX then
        if \<not> allocated (p ! cnt) then
          (let p1 = p[cnt := set_allocated True (p ! cnt)];
               retVal = Some cnt;
               p2 = p1[cnt := set_allocated True (p1 ! cnt)]
           in (retVal, p2))
        else scan_free p (cnt + 1)
      else (None, p))"
  by pat_completeness auto
termination
  by (relation "measure (\<lambda>(p, cnt). CP23LFS_FILES_MAX - cnt)") auto

text \<open>
  The two loops under "Clear the file structure", for a record of \<open>n\<close> bytes: the first
  stores the word 0 at the word index \<open>cnt\<close>, the second the byte 0 at the byte index
  \<open>cnt\<close>; both indices count from the start of the record.
\<close>

function clear_words :: "nat \<Rightarrow> mem \<Rightarrow> nat \<Rightarrow> mem" where
  "clear_words n m cnt =
     (if cnt < n div 4 then clear_words n (store32 (4 * cnt) 0 m) (cnt + 1) else m)"
  by pat_completeness auto
termination
  by (relation "measure (\<lambda>(n, m, cnt). n div 4 - cnt)") auto

function clear_bytes :: "nat \<Rightarrow> mem \<Rightarrow> nat \<Rightarrow> mem" where
  "clear_bytes n m cnt =
     (if cnt < n mod 4 then clear_bytes n (store8 cnt 0 m) (cnt + 1) else m)"
  by pat_completeness auto
termination
  by (relation "measure (\<lambda>(n, m, cnt). n mod 4 - cnt)") auto

definition clear_record :: "nat \<Rightarrow> mem \<Rightarrow> mem" where
  "clear_record n m = clear_bytes n (clear_words n m 0) 0"

text \<open>The loop under "Init attributes description"; \<open>retVal\<close> is the address of the record.\<close>

function init_descr :: "layout \<Rightarrow> u32 \<Rightarrow> mem \<Rightarrow> nat \<Rightarrow> mem" where
  "init_descr L retVal m cnt =
     (if cnt < CP23LFS_ATTR_NUM then
        let m1 = store8 (descr_at L cnt) (of_nat cnt) m;
            m2 = store32 (descr_at L cnt + 4) (retVal + of_nat (parOffset ! cnt)) m1;
            m3 = store32 (descr_at L cnt + 8) (of_nat (parSize ! cnt)) m2
        in init_descr L retVal m3 (cnt + 1)
      else m)"
  by pat_completeness auto
termination
  by (relation "measure (\<lambda>(L, retVal, m, cnt). CP23LFS_ATTR_NUM - cnt)") auto

text \<open>The three assignments under "Init file configuration".\<close>

definition init_fileCfg :: "layout \<Rightarrow> u32 \<Rightarrow> mem \<Rightarrow> mem" where
  "init_fileCfg L retVal m =
     (let m1 = store32 (off_fileCfg L + 4) (retVal + of_nat (off_descr L)) m;
          m2 = store32 (off_fileCfg L + 8) (of_nat CP23LFS_ATTR_NUM) m1;
          m3 = store32 (off_fileCfg L) (retVal + of_nat off_buffer) m2
      in m3)"

definition CP23_GetFileStructure :: "layout \<Rightarrow> pool \<Rightarrow> nat option \<times> pool" where
  "CP23_GetFileStructure L p =
     (case scan_free p 0 of
        (None, p') \<Rightarrow> (None, p')
      | (Some i, p') \<Rightarrow>
          let retVal = rec_addr L i;
              m1 = clear_record (sizeof_fileStructure L) (p' ! i);
              m2 = init_descr L retVal m1 0;
              m3 = init_fileCfg L retVal m2
          in (Some i, p'[i := m3]))"

text \<open>
  \<open>CP23_ReleaseFileStructure\<close> asserts that the handle is not null and stores \<open>false\<close>
  in \<open>system.allocated\<close> of the record it points to. An index outside the pool stands for
  a pointer that is no handle of the pool: the C code would write through it all the same,
  the model leaves the pool as it is.
\<close>

definition CP23_ReleaseFileStructure :: "nat option \<Rightarrow> pool \<Rightarrow> error + pool" where
  "CP23_ReleaseFileStructure cp23lfs_file p =
     (case cp23lfs_file of
        None \<Rightarrow> Inl Assert_failed
      | Some i \<Rightarrow> Inr (p[i := set_allocated False (p ! i)]))"

text \<open>The handles that \<open>n\<close> calls of \<open>CP23_GetFileStructure\<close> in a row return.\<close>

fun acquire_times :: "layout \<Rightarrow> nat \<Rightarrow> pool \<Rightarrow> nat option list" where
  "acquire_times L 0 p = []"
| "acquire_times L (Suc n) p =
     fst (CP23_GetFileStructure L p) # acquire_times L n (snd (CP23_GetFileStructure L p))"

text \<open>
  A pool to run the operations on: the array at address \<open>0x20000000\<close>, a cache of 256
  bytes and a file object of 84 bytes give records of 532 bytes; \<open>free_pool\<close> is the
  array as the C start-up code leaves it, all bytes zero.
\<close>

definition example_layout :: layout where
  "example_layout = \<lparr> pool_addr = 0x20000000, CP23LFS_CACHE_SIZE = 256, sizeof_lfs_file = 84 \<rparr>"

definition free_pool :: "layout \<Rightarrow> pool" where
  "free_pool L = replicate CP23LFS_FILES_MAX (replicate (sizeof_fileStructure L) 0)"

text \<open>
  The record that an acquisition of slot \<open>i\<close> leaves behind: the descriptor table and the
  file configuration written over zero bytes.
\<close>

definition fresh :: "layout \<Rightarrow> nat \<Rightarrow> mem" where
  "fresh L i = init_fileCfg L (rec_addr L i)
     (init_descr L (rec_addr L i) (replicate (sizeof_fileStructure L) 0) 0)"

text \<open>A pool whose slot 3 is allocated and holds the byte \<open>0x5A\<close> everywhere else.\<close>

definition used_pool :: "layout \<Rightarrow> pool" where
  "used_pool L = (free_pool L)[3 := set_allocated True (replicate (sizeof_fileStructure L) 0x5A)]"

section \<open>Properties of the authorization helpers\<close>

lemma three_is_mask2: "(3::byte) = mask 2"
  by (simp add: mask_eq_exp_minus_1)

lemma auth_bits:
  "bit (LfsUserAuth x) n = (n < 2 \<and> bit x n)"
  "bit (LfsMNFAuth x) n = (n < 2 \<and> bit x (n + 2))"
  "bit (LfsBPAuth x) n = (n < 2 \<and> bit x (n + 4))"
  "bit (LfsSysAuth x) n = (n < 2 \<and> bit x (n + 6))"
  by (auto simp add: LfsUserAuth_def LfsMNFAuth_def LfsBPAuth_def LfsSysAuth_def
      three_is_mask2 bit_simps add.commute simp del: bit_mask_iff)

lemma auth_recompose:
  "LfsUserAuth x OR push_bit 2 (LfsMNFAuth x) OR push_bit 4 (LfsBPAuth x)
     OR push_bit 6 (LfsSysAuth x) = x"
proof (rule bit_word_eqI)
  fix n assume "n < LENGTH(8)"
  then have n: "n < 8" by simp
  consider "n < 2" | "2 \<le> n" "n < 4" | "4 \<le> n" "n < 6" | "6 \<le> n" "n < 8"
    using n by linarith
  then show "bit (LfsUserAuth x OR push_bit 2 (LfsMNFAuth x) OR push_bit 4 (LfsBPAuth x)
      OR push_bit 6 (LfsSysAuth x)) n = bit x n"
    by cases (auto simp add: auth_bits bit_simps simp del: add_2_eq_Suc add_2_eq_Suc')
qed

text \<open>
  C8. On the byte \<open>0xF4\<close> of the header's example the helpers give USER = 00,
  MNF = 01, BP = 11 and SYS = 11. In general each helper returns the two bits of its
  group (read = bit 0, write = bit 1 of the result), the groups lying in the order
  USER, MNF, BP, SYS from the least significant pair of the byte upwards, and the four
  fields together make up the whole byte.
\<close>

theorem auth_decode:
  "LfsUserAuth 0xF4 = 0 \<and> LfsMNFAuth 0xF4 = 1 \<and> LfsBPAuth 0xF4 = 3 \<and> LfsSysAuth 0xF4 = 3
   \<and> (\<forall>x n. bit (LfsUserAuth x) n = (n < 2 \<and> bit x n))
   \<and> (\<forall>x n. bit (LfsMNFAuth x) n = (n < 2 \<and> bit x (n + 2)))
   \<and> (\<forall>x n. bit (LfsBPAuth x) n = (n < 2 \<and> bit x (n + 4)))
   \<and> (\<forall>x n. bit (LfsSysAuth x) n = (n < 2 \<and> bit x (n + 6)))
   \<and> (\<forall>x. LfsUserAuth x OR push_bit 2 (LfsMNFAuth x) OR push_bit 4 (LfsBPAuth x)
          OR push_bit 6 (LfsSysAuth x) = x)"
proof -
  have "LfsUserAuth 0xF4 = 0 \<and> LfsMNFAuth 0xF4 = 1 \<and> LfsBPAuth 0xF4 = 3 \<and> LfsSysAuth 0xF4 = 3"
    by (simp add: LfsUserAuth_def LfsMNFAuth_def LfsBPAuth_def LfsSysAuth_def drop_bit_eq_div)
  then show ?thesis
    by (simp add: auth_bits auth_recompose)
qed

section \<open>Properties of the flash driver\<close>

subsection \<open>Command framing\<close>

lemma ucast_and_255: "(ucast (x AND 0xFF :: u32) :: byte) = ucast x"
proof -
  have m: "(0xFF :: u32) = mask 8" by (simp add: mask_eq_exp_minus_1)
  show ?thesis unfolding m
    by (rule bit_word_eqI) (auto simp add: bit_simps)
qed

lemma unat_split32_b: "unat (split32_b v k) = unat v div 2 ^ (8 * k) mod 256"
proof -
  have "unat (split32_b v k) = take_bit 8 (drop_bit (8 * k) (unat v))"
    by (simp add: split32_b_def unsigned_ucast_eq unat_drop_bit_eq)
  then show ?thesis
    by (simp add: take_bit_eq_mod drop_bit_eq_div)
qed

lemma frame_update: "(cmd_frame 0 addr)[0 := opcode] = cmd_frame opcode addr"
  by (simp add: cmd_frame_def)

text \<open>
  C9. For every opcode and every 32-bit address the framed command is the four bytes
  opcode, \<open>(addr >> 16) & 0xFF\<close>, \<open>(addr >> 8) & 0xFF\<close>, \<open>addr & 0xFF\<close>, the most
  significant address byte first. The frame is a function of the opcode and the address
  alone, so equal inputs give equal bytes. For an address below \<open>2^20\<close> the three
  address bytes are the base-256 digits of the address, the first of them below 16, so
  the frame loses nothing of the address.
\<close>

theorem cmd_frame_bytes:
  "cmd_frame opcode addr =
      [opcode, ucast (drop_bit 16 addr AND 0xFF), ucast (drop_bit 8 addr AND 0xFF), ucast (addr AND 0xFF)]
   \<and> (addr < 0x100000 \<longrightarrow>
        map unat (cmd_frame opcode addr) =
          [unat opcode, unat addr div 65536, unat addr div 256 mod 256, unat addr mod 256]
        \<and> unat addr div 65536 < 16)"
proof -
  have a: "cmd_frame opcode addr =
      [opcode, ucast (drop_bit 16 addr AND 0xFF), ucast (drop_bit 8 addr AND 0xFF), ucast (addr AND 0xFF)]"
    by (simp add: cmd_frame_def split32_b_def SPLIT_T0_def SPLIT_T1_def SPLIT_T2_def ucast_and_255)
  have b: "map unat (cmd_frame opcode addr) =
          [unat opcode, unat addr div 65536, unat addr div 256 mod 256, unat addr mod 256]
        \<and> unat addr div 65536 < 16" if "addr < 0x100000"
  proof -
    from that have "unat addr < 1048576" by (simp add: word_less_nat_alt)
    then have "unat addr div 65536 < 16" by simp
    then show ?thesis
      by (simp add: cmd_frame_def unat_split32_b SPLIT_T0_def SPLIT_T1_def SPLIT_T2_def)
  qed
  from a b show ?thesis by blast
qed

theorem cmd_frame_bytes_witness:
  "(0x012345 :: u32) < 0x100000 \<and> cmd_frame CMD_READ 0x012345 = [0x03, 0x01, 0x23, 0x45]
   \<and> map unat (cmd_frame CMD_READ 0x012345) = [3, 1, 35, 69]"
  using cmd_frame_bytes [of CMD_READ "0x012345"] by (simp add: CMD_READ_def)

subsection \<open>Running the driver on the stub\<close>

lemmas prims = SPI_CS_Enable_def SPI_CS_Disable_def SPI_Transmit_def SPI_Receive_def
  LoadSWTimer_def SWTimerTimeout_def emit_def rx_into_def

lemmas stub_eval = IS25LP080D_WaitWhileBusy_def busy_loop.simps stub_def idle_def prims
  CMD_PAGE_PROGRAM_def CMD_READ_STATUS_def CMD_WRITE_ENABLE_def CMD_READ_def
  CMD_SECTOR_ERASE_def CMD_BLOCK_ERASE_def returned_def cmd_frame_def split32_b_def
  SPLIT_T0_def SPLIT_T1_def SPLIT_T2_def IS25LP080D_ERROR_def

lemma program_tx_failure_run:
  "IS25LP080D_Program (stub False 3 0x00) 0x012345 (Some [0xAA, 0xBB]) 2 idle =
     Some (Inr IS25LP080D_ERROR, program_tx_failure)"
  by (simp add: IS25LP080D_Program_def program_tx_failure_def stub_eval)

lemma erase_done_run:
  "IS25LP080D_Erase (stub True 3 0x00) 0x012345 4096 idle = Some (Inr 0, erase_done)"
  by (simp add: IS25LP080D_Erase_def erase_send_def erase_done_def stub_eval)

lemma wait_timed_out_run:
  "IS25LP080D_WaitWhileBusy (stub True 2 0x01) CMD_PAGE_PROGRAM idle =
     Some (IS25LP080D_ERROR, wait_timed_out)"
  by (simp add: wait_timed_out_def stub_eval)

lemma program_timed_out_run:
  "IS25LP080D_Program (stub True 2 0x01) 0x012345 (Some [0xAA, 0xBB]) 2 idle =
     Some (Inr IS25LP080D_ERROR, program_timed_out)"
  by (simp add: IS25LP080D_Program_def program_timed_out_def stub_eval)

subsection \<open>Single steps of the driver\<close>

lemma world_upd: "(w :: 'd world)\<lparr>dev := d, trace := t\<rparr> = \<lparr>trace = t, dev = d\<rparr>"
  by (cases w) simp

lemma after_after [simp]: "after (after w es d) es' d' = after w (es @ es') d'"
  by (simp add: after_def)

lemma dev_after [simp]: "dev (after w es d) = d"
  by (simp add: after_def)

lemma trace_after [simp]: "trace (after w es d) = trace w @ es"
  by (simp add: after_def)

lemma busy_loop_expired:
  assumes "sw_timer_timeout S (dev w) = (True, d1)"
  shows "busy_loop S memOpcode status w =
     Some (IS25LP080D_ERROR, after w (timeout_events memOpcode) d1)"
  using assms
  by (subst busy_loop.simps) (simp add: prims after_def timeout_events_def world_upd)

lemma busy_loop_tx_failed:
  assumes "sw_timer_timeout S (dev w) = (False, d1)"
    and "spi_transmit S [CMD_READ_STATUS] (spi_cs_enable S d1) = (False, d2)"
  shows "busy_loop S memOpcode status w =
     Some (IS25LP080D_ERROR,
       after w [Timer_Timeout False, CS_Enable, Transmit [CMD_READ_STATUS] False, CS_Disable]
         (spi_cs_disable S d2))"
  using assms by (subst busy_loop.simps) (simp add: prims after_def world_upd)

lemma busy_loop_rx_failed:
  assumes "sw_timer_timeout S (dev w) = (False, d1)"
    and "spi_transmit S [CMD_READ_STATUS] (spi_cs_enable S d1) = (True, d2)"
    and "spi_receive S 1 d2 = ((False, data), d3)"
  shows "busy_loop S memOpcode status w =
     Some (IS25LP080D_ERROR,
       after w [Timer_Timeout False, CS_Enable, Transmit [CMD_READ_STATUS] True,
           Receive 1 (take 1 data) False, CS_Disable]
         (spi_cs_disable S d3))"
  using assms by (subst busy_loop.simps) (simp add: prims after_def world_upd)

lemma busy_loop_ready:
  assumes "sw_timer_timeout S (dev w) = (False, d1)"
    and "spi_transmit S [CMD_READ_STATUS] (spi_cs_enable S d1) = (True, d2)"
    and "spi_receive S 1 d2 = ((True, [s]), d3)"
    and "s AND 0x01 = 0"
  shows "busy_loop S memOpcode status w = Some (0, after w (poll_events s) (spi_cs_disable S d3))"
  using assms
  by (subst busy_loop.simps) (simp add: prims after_def poll_events_def world_upd)

lemma busy_loop_again:
  assumes "sw_timer_timeout S (dev w) = (False, d1)"
    and "spi_transmit S [CMD_READ_STATUS] (spi_cs_enable S d1) = (True, d2)"
    and "spi_receive S 1 d2 = ((True, [s]), d3)"
    and "s AND 0x01 \<noteq> 0"
  shows "busy_loop S memOpcode status w =
     busy_loop S memOpcode s (after w (poll_events s) (spi_cs_disable S d3))"
  using assms
  by (subst busy_loop.simps) (simp add: prims after_def poll_events_def world_upd)

lemma wait_start:
  "IS25LP080D_WaitWhileBusy S memOpcode w =
     busy_loop S memOpcode 0 (after w [Load_Timer] (load_sw_timer S (dev w)))"
  by (simp add: IS25LP080D_WaitWhileBusy_def LoadSWTimer_def emit_def after_def world_upd)

lemma wait_expired:
  assumes "sw_timer_timeout S (load_sw_timer S (dev w)) = (True, d1)"
  shows "IS25LP080D_WaitWhileBusy S memOpcode w =
     Some (IS25LP080D_ERROR, after w (Load_Timer # timeout_events memOpcode) d1)"
proof -
  from assms
  have "sw_timer_timeout S (dev (after w [Load_Timer] (load_sw_timer S (dev w)))) = (True, d1)"
    by simp
  from busy_loop_expired [OF this] show ?thesis by (simp add: wait_start)
qed

lemma erase_send_sent:
  assumes "spi_transmit S [CMD_WRITE_ENABLE] (spi_cs_enable S (dev w)) = (True, d1)"
    and "spi_transmit S cmd (spi_cs_enable S (spi_cs_disable S d1)) = (True, d2)"
  shows "erase_send S cmd w =
     returned (IS25LP080D_WaitWhileBusy S (cmd ! 0)
       (after w (erase_events cmd) (spi_cs_disable S d2)))"
  using assms by (simp add: erase_send_def prims after_def erase_events_def world_upd)

lemma erase_sent:
  assumes "addr < 0x100000"
    and "sz = 4096 \<and> opc = CMD_SECTOR_ERASE \<or> sz = 65536 \<and> opc = CMD_BLOCK_ERASE"
    and "spi_transmit S [CMD_WRITE_ENABLE] (spi_cs_enable S (dev w)) = (True, d1)"
    and "spi_transmit S (cmd_frame opc addr) (spi_cs_enable S (spi_cs_disable S d1)) = (True, d2)"
  shows "IS25LP080D_Erase S addr sz w =
     returned (IS25LP080D_WaitWhileBusy S opc
       (after w (erase_events (cmd_frame opc addr)) (spi_cs_disable S d2)))"
proof -
  have op: "cmd_frame opc addr ! 0 = opc" by (simp add: cmd_frame_def)
  from assms(2) have "IS25LP080D_Erase S addr sz w = erase_send S (cmd_frame opc addr) w"
    using assms(1) by (auto simp add: IS25LP080D_Erase_def frame_update)
  with erase_send_sent [OF assms(3,4)] op show ?thesis by simp
qed

lemma program_sent:
  assumes "addr < 0x100000" and "sz \<le> 0x100000"
    and "spi_transmit S [CMD_WRITE_ENABLE] (spi_cs_enable S (dev w)) = (True, d1)"
    and "spi_transmit S (cmd_frame CMD_PAGE_PROGRAM addr) (spi_cs_enable S (spi_cs_disable S d1))
           = (True, d2)"
    and "spi_transmit S (take (unat sz) buf) d2 = (True, d3)"
  shows "IS25LP080D_Program S addr (Some buf) sz w =
     returned (IS25LP080D_WaitWhileBusy S CMD_PAGE_PROGRAM
       (after w (program_events (cmd_frame CMD_PAGE_PROGRAM addr) (take (unat sz) buf))
          (spi_cs_disable S d3)))"
  using assms by (simp add: IS25LP080D_Program_def prims after_def program_events_def world_upd)

subsection \<open>A device that stays busy, and one that becomes ready\<close>

lemma stub_busy_loop:
  "dev w + k = limit \<Longrightarrow>
   busy_loop (stub True limit 0x01) memOpcode status w =
     Some (IS25LP080D_ERROR,
       after w (concat (replicate k (poll_events 0x01)) @ timeout_events memOpcode) (Suc limit))"
proof (induction k arbitrary: w status)
  case 0
  then have "sw_timer_timeout (stub True limit 0x01) (dev w) = (True, Suc limit)"
    by (simp add: stub_def)
  from busy_loop_expired [OF this] show ?case by simp
next
  case (Suc k)
  let ?S = "stub True limit 0x01"
  from Suc.prems have t: "sw_timer_timeout ?S (dev w) = (False, Suc (dev w))"
    by (simp add: stub_def)
  have x: "spi_transmit ?S [CMD_READ_STATUS] (spi_cs_enable ?S (Suc (dev w))) = (True, Suc (dev w))"
    by (simp add: stub_def)
  have r: "spi_receive ?S 1 (Suc (dev w)) = ((True, [0x01]), Suc (dev w))"
    by (simp add: stub_def)
  have d: "spi_cs_disable ?S (Suc (dev w)) = Suc (dev w)" by (simp add: stub_def)
  have "busy_loop ?S memOpcode status w =
      busy_loop ?S memOpcode 0x01 (after w (poll_events 0x01) (Suc (dev w)))"
    using busy_loop_again [OF t x r] d by simp
  also have "\<dots> = Some (IS25LP080D_ERROR,
       after (after w (poll_events 0x01) (Suc (dev w)))
         (concat (replicate k (poll_events 0x01)) @ timeout_events memOpcode) (Suc limit))"
    by (rule Suc.IH) (use Suc.prems in simp)
  finally show ?case by simp
qed

lemma stub_wait_times_out:
  "IS25LP080D_WaitWhileBusy (stub True limit 0x01) memOpcode w =
     Some (IS25LP080D_ERROR,
       after w (Load_Timer # concat (replicate limit (poll_events 0x01)) @ timeout_events memOpcode)
         (Suc limit))"
proof -
  have "load_sw_timer (stub True limit 0x01) (dev w) = 0" by (simp add: stub_def)
  then show ?thesis
    by (simp add: wait_start stub_busy_loop [where k = limit])
qed

lemma stub_erase_times_out:
  assumes "addr < 0x100000"
    and "sz = 4096 \<and> opc = CMD_SECTOR_ERASE \<or> sz = 65536 \<and> opc = CMD_BLOCK_ERASE"
  shows "IS25LP080D_Erase (stub True limit 0x01) addr sz w =
     Some (Inr IS25LP080D_ERROR,
       after w (erase_events (cmd_frame opc addr) @ Load_Timer
           # concat (replicate limit (poll_events 0x01)) @ timeout_events opc)
         (Suc limit))"
proof -
  let ?S = "stub True limit 0x01"
  have "spi_transmit ?S [CMD_WRITE_ENABLE] (spi_cs_enable ?S (dev w)) = (True, dev w)"
    "spi_transmit ?S (cmd_frame opc addr) (spi_cs_enable ?S (spi_cs_disable ?S (dev w)))
       = (True, dev w)"
    by (simp_all add: stub_def)
  from erase_sent [OF assms this] show ?thesis
    by (simp add: stub_wait_times_out returned_def)
qed

lemma stub_program_times_out:
  assumes "addr < 0x100000" and "sz \<le> 0x100000"
  shows "IS25LP080D_Program (stub True limit 0x01) addr (Some buf) sz w =
     Some (Inr IS25LP080D_ERROR,
       after w (program_events (cmd_frame CMD_PAGE_PROGRAM addr) (take (unat sz) buf) @ Load_Timer
           # concat (replicate limit (poll_events 0x01)) @ timeout_events CMD_PAGE_PROGRAM)
         (Suc limit))"
proof -
  let ?S = "stub True limit 0x01"
  have "spi_transmit ?S [CMD_WRITE_ENABLE] (spi_cs_enable ?S (dev w)) = (True, dev w)"
    "spi_transmit ?S (cmd_frame CMD_PAGE_PROGRAM addr)
       (spi_cs_enable ?S (spi_cs_disable ?S (dev w))) = (True, dev w)"
    "spi_transmit ?S (take (unat sz) buf) (dev w) = (True, dev w)"
    by (simp_all add: stub_def)
  from program_sent [OF assms this] show ?thesis
    by (simp add: stub_wait_times_out returned_def)
qed

lemma countdown_busy_loop:
  "busy_loop countdown memOpcode status w =
     Some (0, after w (concat (replicate (dev w) (poll_events 0x01)) @ poll_events 0x00) 0)"
proof (induction "dev w" arbitrary: w status)
  case 0
  let ?S = "countdown"
  have "sw_timer_timeout ?S (dev w) = (False, 0)"
    "spi_transmit ?S [CMD_READ_STATUS] (spi_cs_enable ?S 0) = (True, 0)"
    "spi_receive ?S 1 0 = ((True, [0x00]), 0)" "(0x00 :: byte) AND 0x01 = 0"
    using 0 by (simp_all add: countdown_def)
  from busy_loop_ready [OF this] 0 show ?case by (simp add: countdown_def)
next
  case (Suc n)
  let ?S = "countdown"
  have "sw_timer_timeout ?S (dev w) = (False, Suc n)"
    "spi_transmit ?S [CMD_READ_STATUS] (spi_cs_enable ?S (Suc n)) = (True, Suc n)"
    "spi_receive ?S 1 (Suc n) = ((True, [0x01]), n)" "(0x01 :: byte) AND 0x01 \<noteq> 0"
    using Suc(2) by (simp_all add: countdown_def)
  from busy_loop_again [OF this]
  have "busy_loop ?S memOpcode status w =
      busy_loop ?S memOpcode 0x01 (after w (poll_events 0x01) n)"
    by (simp add: countdown_def)
  also have "\<dots> = Some (0, after (after w (poll_events 0x01) n)
      (concat (replicate (dev (after w (poll_events 0x01) n)) (poll_events 0x01))
         @ poll_events 0x00) 0)"
    by (rule Suc(1)) simp
  finally show ?case using Suc(2) [symmetric] by simp
qed

lemma countdown_wait:
  "IS25LP080D_WaitWhileBusy countdown memOpcode w =
     Some (0, after w (Load_Timer # concat (replicate (dev w) (poll_events 0x01))
        @ poll_events 0x00) 0)"
  by (simp add: wait_start countdown_busy_loop) (simp add: countdown_def)

subsection \<open>Erase sizes\<close>

text \<open>
  C3, as the claim states it, fails: not every address and size other than 4096 and 65536
  gives the unsupported-size error. The two asserted preconditions come first, so an
  address of \<open>2^20\<close>, or a size above \<open>2^20\<close>, ends the call at the assertion and the error
  code is never returned.
\<close>

theorem erase_out_of_range_counterexample:
  "IS25LP080D_Erase (stub True 3 0x00) 0x100000 5 idle = Some (Inl Assert_failed, idle)
   \<and> IS25LP080D_Erase (stub True 3 0x00) 0 0x100001 idle = Some (Inl Assert_failed, idle)"
  by (simp add: IS25LP080D_Erase_def)

text \<open>
  C3, amended. For every address and every size other than 4096 and 65536,
  \<open>IS25LP080D_Erase\<close> returns at once and leaves the world as it found it: no chip-select,
  transmit or receive call is made. What it returns is the error code \<open>IS25LP080D_ERROR\<close>
  when the call meets the two asserted preconditions (address below \<open>2^20\<close>, size at most
  \<open>2^20\<close>), and the assertion failure when it violates one. For an address below \<open>2^20\<close>,
  size 4096 continues with the command framed with the sector-erase opcode \<open>0x20\<close> and
  size 65536 with the block-erase opcode \<open>0xD8\<close>: when the write-enable and the command
  are transmitted successfully, the bus has carried exactly the write-enable transaction
  and the transaction of that command, and the call goes on to the busy-wait with that
  opcode.
\<close>

theorem erase_size_dispatch:
  "(sz \<noteq> 4096 \<and> sz \<noteq> 65536 \<longrightarrow>
      IS25LP080D_Erase S addr sz w =
        Some (if addr < 0x100000 \<and> sz \<le> 0x100000 then Inr IS25LP080D_ERROR else Inl Assert_failed, w))
   \<and> (addr < 0x100000 \<longrightarrow>
        IS25LP080D_Erase S addr 4096 w = erase_send S (cmd_frame 0x20 addr) w
      \<and> IS25LP080D_Erase S addr 65536 w = erase_send S (cmd_frame 0xD8 addr) w)
   \<and> (addr < 0x100000 \<and> (sz = 4096 \<and> opc = 0x20 \<or> sz = 65536 \<and> opc = 0xD8)
        \<and> spi_transmit S [CMD_WRITE_ENABLE] (spi_cs_enable S (dev w)) = (True, d1)
        \<and> spi_transmit S (cmd_frame opc addr) (spi_cs_enable S (spi_cs_disable S d1)) = (True, d2)
      \<longrightarrow>
        IS25LP080D_Erase S addr sz w =
          returned (IS25LP080D_WaitWhileBusy S opc
            \<lparr>trace = trace w @ [CS_Enable, Transmit [CMD_WRITE_ENABLE] True, CS_Disable,
                                CS_Enable, Transmit (cmd_frame opc addr) True, CS_Disable],
             dev = spi_cs_disable S d2\<rparr>))"
proof -
  have a: "sz \<noteq> 4096 \<and> sz \<noteq> 65536 \<longrightarrow>
      IS25LP080D_Erase S addr sz w =
        Some (if addr < 0x100000 \<and> sz \<le> 0x100000 then Inr IS25LP080D_ERROR else Inl Assert_failed, w)"
    by (simp add: IS25LP080D_Erase_def)
  have b: "addr < 0x100000 \<longrightarrow>
        IS25LP080D_Erase S addr 4096 w = erase_send S (cmd_frame 0x20 addr) w
      \<and> IS25LP080D_Erase S addr 65536 w = erase_send S (cmd_frame 0xD8 addr) w"
    by (simp add: IS25LP080D_Erase_def frame_update CMD_SECTOR_ERASE_def CMD_BLOCK_ERASE_def)
  have c: "IS25LP080D_Erase S addr sz w =
          returned (IS25LP080D_WaitWhileBusy S opc
            \<lparr>trace = trace w @ [CS_Enable, Transmit [CMD_WRITE_ENABLE] True, CS_Disable,
                                CS_Enable, Transmit (cmd_frame opc addr) True, CS_Disable],
             dev = spi_cs_disable S d2\<rparr>)"
    if "addr < 0x100000" and "sz = 4096 \<and> opc = 0x20 \<or> sz = 65536 \<and> opc = 0xD8"
      and "spi_transmit S [CMD_WRITE_ENABLE] (spi_cs_enable S (dev w)) = (True, d1)"
      and "spi_transmit S (cmd_frame opc addr) (spi_cs_enable S (spi_cs_disable S d1)) = (True, d2)"
    using erase_sent [of addr sz opc S w d1 d2] that
    by (simp add: CMD_SECTOR_ERASE_def CMD_BLOCK_ERASE_def after_def erase_events_def)
  from a b c show ?thesis by blast
qed

theorem erase_size_dispatch_witness:
  "IS25LP080D_Erase (stub True 3 0x00) 0x012345 4095 idle = Some (Inr (-5), idle)
   \<and> IS25LP080D_Erase (stub True 3 0x00) 0x012345 0 idle = Some (Inr (-5), idle)
   \<and> IS25LP080D_Erase (stub True 3 0x00) 0x100000 4095 idle = Some (Inl Assert_failed, idle)
   \<and> IS25LP080D_Erase (stub True 3 0x00) 0x012345 4096 idle =
       Some (Inr 0, \<lparr>trace = [CS_Enable, Transmit [0x06] True, CS_Disable,
          CS_Enable, Transmit [0x20, 0x01, 0x23, 0x45] True, CS_Disable,
          Load_Timer, Timer_Timeout False,
          CS_Enable, Transmit [0x05] True, Receive 1 [0] True, CS_Disable], dev = 1\<rparr>)
   \<and> IS25LP080D_Erase (stub True 3 0x00) 0x012345 65536 idle =
       Some (Inr 0, \<lparr>trace = [CS_Enable, Transmit [0x06] True, CS_Disable,
          CS_Enable, Transmit [0xD8, 0x01, 0x23, 0x45] True, CS_Disable,
          Load_Timer, Timer_Timeout False,
          CS_Enable, Transmit [0x05] True, Receive 1 [0] True, CS_Disable], dev = 1\<rparr>)"
proof -
  let ?S = "stub True 3 0x00"
  have unsupported: "IS25LP080D_Erase S addr sz w =
      Some (if addr < 0x100000 \<and> sz \<le> 0x100000 then Inr IS25LP080D_ERROR else Inl Assert_failed, w)"
    if "sz \<noteq> 4096" and "sz \<noteq> 65536" for S :: "nat services" and addr sz w
    using erase_size_dispatch [of sz S addr w] that by blast
  have sent: "IS25LP080D_Erase S addr sz w =
      returned (IS25LP080D_WaitWhileBusy S opc
        \<lparr>trace = trace w @ [CS_Enable, Transmit [CMD_WRITE_ENABLE] True, CS_Disable,
                            CS_Enable, Transmit (cmd_frame opc addr) True, CS_Disable],
         dev = spi_cs_disable S d2\<rparr>)"
    if "addr < 0x100000" and "sz = 4096 \<and> opc = 0x20 \<or> sz = 65536 \<and> opc = 0xD8"
      and "spi_transmit S [CMD_WRITE_ENABLE] (spi_cs_enable S (dev w)) = (True, d1)"
      and "spi_transmit S (cmd_frame opc addr) (spi_cs_enable S (spi_cs_disable S d1)) = (True, d2)"
    for S :: "nat services" and addr sz w opc d1 d2
    using erase_size_dispatch [of sz S addr w opc d1 d2] that by blast
  have f: "cmd_frame c 0x012345 = [c, 0x01, 0x23, 0x45]" for c
    by (simp add: stub_eval)
  have tx: "spi_transmit ?S buf (spi_cs_enable ?S d) = (True, d)"
    "spi_cs_disable ?S d = d" "dev idle = 0" "trace idle = []" for buf d
    by (simp_all add: stub_def idle_def)
  have wt: "IS25LP080D_WaitWhileBusy ?S c
      \<lparr>trace = [CS_Enable, Transmit [0x06] True, CS_Disable,
          CS_Enable, Transmit [c, 0x01, 0x23, 0x45] True, CS_Disable], dev = 0\<rparr> =
      Some (0, \<lparr>trace = [CS_Enable, Transmit [0x06] True, CS_Disable,
          CS_Enable, Transmit [c, 0x01, 0x23, 0x45] True, CS_Disable,
          Load_Timer, Timer_Timeout False,
          CS_Enable, Transmit [0x05] True, Receive 1 [0] True, CS_Disable], dev = 1\<rparr>)" for c
    by (simp add: stub_eval)
  have small: "IS25LP080D_Erase ?S 0x012345 4095 idle = Some (Inr (-5), idle)"
    "IS25LP080D_Erase ?S 0x012345 0 idle = Some (Inr (-5), idle)"
    "IS25LP080D_Erase ?S 0x100000 4095 idle = Some (Inl Assert_failed, idle)"
    by (simp_all add: unsupported IS25LP080D_ERROR_def)
  have sector: "IS25LP080D_Erase ?S 0x012345 4096 idle =
      returned (IS25LP080D_WaitWhileBusy ?S 0x20
        \<lparr>trace = [CS_Enable, Transmit [0x06] True, CS_Disable,
          CS_Enable, Transmit [0x20, 0x01, 0x23, 0x45] True, CS_Disable], dev = 0\<rparr>)"
    using sent [of "0x012345" 4096 "0x20" ?S idle 0 0]
    by (simp add: tx f CMD_WRITE_ENABLE_def)
  have block: "IS25LP080D_Erase ?S 0x012345 65536 idle =
      returned (IS25LP080D_WaitWhileBusy ?S 0xD8
        \<lparr>trace = [CS_Enable, Transmit [0x06] True, CS_Disable,
          CS_Enable, Transmit [0xD8, 0x01, 0x23, 0x45] True, CS_Disable], dev = 0\<rparr>)"
    using sent [of "0x012345" 65536 "0xD8" ?S idle 0 0]
    by (simp add: tx f CMD_WRITE_ENABLE_def)
  from small sector block show ?thesis
    by (simp add: wt returned_def)
qed

subsection \<open>The traces of the driver\<close>

lemma trace_emit [simp]: "trace (emit e w) = trace w @ [e]"
  by (simp add: emit_def)

lemma trace_cs_enable [simp]: "trace (SPI_CS_Enable S w) = trace w @ [CS_Enable]"
  by (simp add: SPI_CS_Enable_def)

lemma trace_cs_disable [simp]: "trace (SPI_CS_Disable S w) = trace w @ [CS_Disable]"
  by (simp add: SPI_CS_Disable_def)

lemma trace_load_timer [simp]: "trace (LoadSWTimer S w) = trace w @ [Load_Timer]"
  by (simp add: LoadSWTimer_def)

lemma trace_transmit: "SPI_Transmit S buf w = (ok, w') \<Longrightarrow> trace w' = trace w @ [Transmit buf ok]"
  by (auto simp add: SPI_Transmit_def split: prod.splits)

lemma trace_receive:
  "SPI_Receive S buffer n w = ((ok, buf'), w') \<Longrightarrow>
     \<exists>d. trace w' = trace w @ [Receive n d ok] \<and> buf' = d @ drop (length d) buffer \<and> length d \<le> n"
  by (auto simp add: SPI_Receive_def rx_into_def split: prod.splits)

lemma trace_timeout:
  "SWTimerTimeout S w = (expired, w') \<Longrightarrow> trace w' = trace w @ [Timer_Timeout expired]"
  by (auto simp add: SWTimerTimeout_def split: prod.splits)

lemma trace_transmit_snd [simp]:
  "trace (snd (SPI_Transmit S buf w)) = trace w @ [Transmit buf (fst (SPI_Transmit S buf w))]"
  by (simp add: SPI_Transmit_def split_beta)

lemma trace_receive_snd [simp]:
  "trace (snd (SPI_Receive S buffer n w)) =
     trace w @ [Receive n (take n (snd (fst (spi_receive S n (dev w)))))
                  (fst (fst (SPI_Receive S buffer n w)))]"
  by (simp add: SPI_Receive_def split_beta)

lemma hd_status: "length d \<le> 1 \<Longrightarrow> hd (d @ drop (length d) [status]) = hd (d @ [status])"
  by (cases d) auto

lemma returned_Some_iff:
  "returned x = Some (r, w') \<longleftrightarrow> (\<exists>r0. x = Some (r0, w') \<and> r = Inr r0)"
  by (cases x) (auto simp add: returned_def)

text \<open>Every loop that returns has left one of the traces of \<open>busy_run\<close>.\<close>

lemma busy_loop_run_aux:
  assumes "busy_loop S0 op0 st0 w0 = Some y0"
  shows "\<exists>t. trace (snd y0) = trace w0 @ t \<and> busy_run op0 st0 t (fst y0)"
proof (rule busy_loop.raw_induct
    [where P = "\<lambda>S op st w y. \<exists>t. trace (snd y) = trace w @ t \<and> busy_run op st t (fst y)",
      OF _ assms], goal_cases)
  case (1 loop S memOpcode status w y)
  obtain r w' where y: "y = (r, w')" by (cases y)
  note body = 1(2) [unfolded y]
  have IH: "\<exists>t. trace w' = trace v @ t \<and> busy_run op st t r" if "loop S' op st v = Some (r, w')"
    for S' op st v using 1(1) [OF that] by simp
  obtain expired w1 where tmo: "SWTimerTimeout S w = (expired, w1)"
    by (cases "SWTimerTimeout S w")
  note t1 = trace_timeout [OF tmo]
  have "\<exists>t. trace w' = trace w @ t \<and> busy_run memOpcode status t r"
  proof (cases expired)
    case True
    with body tmo have "w' = emit (ManageEventError True memOpcode) (emit (RTT_Printf memOpcode) w1)"
      and "r = IS25LP080D_ERROR" by auto
    with t1 True show ?thesis by (auto intro: busy_run.expired)
  next
    case False
    obtain tx_ok w3 where tx: "SPI_Transmit S [CMD_READ_STATUS] (SPI_CS_Enable S w1) = (tx_ok, w3)"
      by (cases "SPI_Transmit S [CMD_READ_STATUS] (SPI_CS_Enable S w1)")
    note t3 = trace_transmit [OF tx]
    show ?thesis
    proof (cases tx_ok)
      case nok: False
      with body tmo False tx have "w' = SPI_CS_Disable S w3" and "r = IS25LP080D_ERROR" by auto
      with t1 t3 False nok show ?thesis by (auto intro: busy_run.tx_failed)
    next
      case ok: True
      obtain rx_ok sbuf w4 where rx: "SPI_Receive S [status] 1 w3 = ((rx_ok, sbuf), w4)"
        by (cases "SPI_Receive S [status] 1 w3") auto
      from trace_receive [OF rx] obtain d where t4: "trace w4 = trace w3 @ [Receive 1 d rx_ok]"
        and "sbuf = d @ drop (length d) [status]" and "length d \<le> 1" by blast
      then have st: "hd sbuf = hd (d @ [status])" by (simp add: hd_status)
      show ?thesis
      proof (cases rx_ok)
        case nrx: False
        with body tmo False tx ok rx have "w' = SPI_CS_Disable S w4" and "r = IS25LP080D_ERROR"
          by auto
        with t1 t3 t4 False ok nrx show ?thesis
          using busy_run.rx_failed [of memOpcode status d] by auto
      next
        case rxk: True
        show ?thesis
        proof (cases "hd sbuf AND 0x01 \<noteq> 0")
          case busy: True
          with body tmo False tx ok rx rxk
          have "loop S memOpcode (hd sbuf) (SPI_CS_Disable S w4) = Some (r, w')" by auto
          from IH [OF this] obtain t where
            "trace w' = trace (SPI_CS_Disable S w4) @ t" and "busy_run memOpcode (hd sbuf) t r"
            by blast
          with t1 t3 t4 False ok rxk busy st show ?thesis
            using busy_run.again [of d status memOpcode t r] by auto
        next
          case rdy: False
          with body tmo False tx ok rx rxk have "w' = SPI_CS_Disable S w4" and "r = 0" by auto
          with t1 t3 t4 False ok rxk st rdy show ?thesis
            using busy_run.ready [of d status memOpcode] by auto
        qed
      qed
    qed
  qed
  then show ?case by (simp add: y)
qed

lemma busy_loop_run:
  "busy_loop S memOpcode status w = Some (r, w') \<Longrightarrow>
     \<exists>t. trace w' = trace w @ t \<and> busy_run memOpcode status t r"
  using busy_loop_run_aux [of S memOpcode status w "(r, w')"] by simp

lemma wait_run:
  assumes "IS25LP080D_WaitWhileBusy S op w = Some (r, w')"
  shows "\<exists>t. trace w' = trace w @ Load_Timer # t \<and> busy_run op 0 t r"
  using busy_loop_run [OF assms [unfolded IS25LP080D_WaitWhileBusy_def]] by simp

subsection \<open>Chip-select\<close>

lemma cs_run_append:
  "cs_run sel (t1 @ t2) = (case cs_run sel t1 of None \<Rightarrow> None | Some s \<Rightarrow> cs_run s t2)"
  by (induction sel t1 rule: cs_run.induct) auto

lemma busy_run_cs: "busy_run op st t r \<Longrightarrow> cs_run False t = Some False"
  by (induction rule: busy_run.induct) simp_all

lemma read_cs:
  "\<exists>t. trace (snd (snd (IS25LP080D_Read S addr rbuf sz w))) = trace w @ t \<and> cs_matched t"
  by (simp add: IS25LP080D_Read_def Let_def split_beta cs_matched_def split: option.splits)

lemma program_cs:
  assumes "IS25LP080D_Program S addr pbuf sz w = Some (r, w')"
  shows "\<exists>t. trace w' = trace w @ t \<and> cs_matched t"
  using assms
  by (auto simp add: IS25LP080D_Program_def Let_def split_beta cs_matched_def returned_Some_iff
      cs_run_append busy_run_cs
      split: option.splits if_splits dest!: wait_run)

lemma erase_send_cs:
  assumes "erase_send S cmd w = Some (r, w')"
  shows "\<exists>t. trace w' = trace w @ t \<and> cs_matched t"
  using assms
  by (auto simp add: erase_send_def Let_def split_beta cs_matched_def returned_Some_iff
      cs_run_append busy_run_cs
      split: option.splits if_splits dest!: wait_run)

lemma erase_cs:
  assumes "IS25LP080D_Erase S addr sz w = Some (r, w')"
  shows "\<exists>t. trace w' = trace w @ t \<and> cs_matched t"
  using assms
  by (auto simp add: IS25LP080D_Erase_def Let_def cs_matched_def
      split: if_splits dest: erase_send_cs)

lemma wait_cs:
  assumes "IS25LP080D_WaitWhileBusy S op w = Some (r, w')"
  shows "\<exists>t. trace w' = trace w @ t \<and> cs_matched t"
  using wait_run [OF assms] by (auto simp add: cs_matched_def busy_run_cs)

text \<open>
  C4. Whatever the transport and the timer do, a call of read, program, erase or the
  busy-wait that returns has appended to the trace a sequence of events in which the
  chip-select line is asserted only while released and released only while asserted,
  every transmit and receive happens while it is asserted, and the line is released at
  the end: the call never returns with the device selected. Read always returns; the
  other three return unless the busy-wait loops for ever.
\<close>

theorem chip_select_released:
  "(\<exists>t. trace (snd (snd (IS25LP080D_Read S addr rbuf sz w))) = trace w @ t \<and> cs_matched t)
   \<and> (\<forall>r w'. IS25LP080D_Program S addr pbuf sz w = Some (r, w') \<longrightarrow>
          (\<exists>t. trace w' = trace w @ t \<and> cs_matched t))
   \<and> (\<forall>r w'. IS25LP080D_Erase S addr sz w = Some (r, w') \<longrightarrow>
          (\<exists>t. trace w' = trace w @ t \<and> cs_matched t))
   \<and> (\<forall>r w'. IS25LP080D_WaitWhileBusy S memOpcode w = Some (r, w') \<longrightarrow>
          (\<exists>t. trace w' = trace w @ t \<and> cs_matched t))"
proof (intro conjI allI impI)
  show "\<exists>t. trace (snd (snd (IS25LP080D_Read S addr rbuf sz w))) = trace w @ t \<and> cs_matched t"
    by (rule read_cs)
qed (erule program_cs erase_cs wait_cs)+

theorem chip_select_released_witness:
  "IS25LP080D_Program (stub False 3 0x00) 0x012345 (Some [0xAA, 0xBB]) 2 idle =
     Some (Inr IS25LP080D_ERROR, program_tx_failure)
   \<and> (\<exists>t. trace program_tx_failure = trace idle @ t \<and> cs_matched t)
   \<and> IS25LP080D_Erase (stub True 3 0x00) 0x012345 4096 idle = Some (Inr 0, erase_done)
   \<and> (\<exists>t. trace erase_done = trace idle @ t \<and> cs_matched t)
   \<and> IS25LP080D_WaitWhileBusy (stub True 2 0x01) CMD_PAGE_PROGRAM idle =
       Some (IS25LP080D_ERROR, wait_timed_out)
   \<and> (\<exists>t. trace wait_timed_out = trace idle @ t \<and> cs_matched t)"
  using chip_select_released [of "stub False 3 0x00" "0x012345" None 2 idle "Some [0xAA, 0xBB]"
      CMD_PAGE_PROGRAM]
    chip_select_released [of "stub True 3 0x00" "0x012345" None 4096 idle None CMD_PAGE_PROGRAM]
    chip_select_released [of "stub True 2 0x01" "0x012345" None 4096 idle None CMD_PAGE_PROGRAM]
    program_tx_failure_run erase_done_run wait_timed_out_run
  by blast

subsection \<open>The order of timer check and status poll\<close>

text \<open>
  C5, as the claim states it, fails: the loop asks the timer before it polls, in its
  first iteration too. On a device that answers every status read with \<open>0x00\<close>
  (write-in-progress clear) and a timer that reports expiry at its first check, the
  busy-wait returns \<open>IS25LP080D_ERROR\<close> without a single status read.
\<close>

theorem busy_wait_ready_after_timeout_counterexample:
  "spi_receive (stub True 0 0x00) 1 0 = ((True, [0x00]), 0)
   \<and> IS25LP080D_WaitWhileBusy (stub True 0 0x00) CMD_PAGE_PROGRAM idle =
       Some (IS25LP080D_ERROR,
         \<lparr>trace = [Load_Timer, Timer_Timeout True, RTT_Printf 0x02, ManageEventError True 0x02],
          dev = 1\<rparr>)"
  by (simp add: stub_eval)

text \<open>
  C5, amended. The busy-wait loads the timer and then iterates, from any state \<open>v\<close> of
  the world and any value \<open>st\<close> of the status variable. Each iteration first asks the
  timer. When the timer reports expiry the iteration takes the timeout path without
  polling and the wait returns \<open>IS25LP080D_ERROR\<close>. Otherwise the iteration transmits the
  read-status command and receives one status byte under chip-select (a failed transmit
  or receive ends the wait with \<open>IS25LP080D_ERROR\<close>); the wait returns 0 when bit 0 of the
  byte is clear, and goes into the next iteration when it is set. So every wait that
  returns has run as \<open>busy_run\<close> describes. In particular, when the timer has not
  expired at its first check and the first status read succeeds with bit 0 clear, the wait
  returns 0 after that one poll; on a device that is busy for \<open>n\<close> status reads and ready
  at the next, with a timer that does not expire, the wait returns 0 after exactly
  \<open>n + 1\<close> polls; and on a device that stays busy, with a timer that expires at its
  check number \<open>limit\<close>, the wait takes the timeout path after exactly \<open>limit\<close> polls.
\<close>

theorem busy_wait_iteration:
  "IS25LP080D_WaitWhileBusy S memOpcode w =
      busy_loop S memOpcode 0 \<lparr>trace = trace w @ [Load_Timer], dev = load_sw_timer S (dev w)\<rparr>
   \<and> (sw_timer_timeout S (dev v) = (True, dt) \<longrightarrow>
        busy_loop S memOpcode st v =
          Some (IS25LP080D_ERROR,
            \<lparr>trace = trace v @ [Timer_Timeout True, RTT_Printf memOpcode,
                                ManageEventError True memOpcode],
             dev = dt\<rparr>))
   \<and> (sw_timer_timeout S (dev v) = (False, dt)
        \<and> spi_transmit S [CMD_READ_STATUS] (spi_cs_enable S dt) = (False, dx) \<longrightarrow>
        busy_loop S memOpcode st v =
          Some (IS25LP080D_ERROR,
            \<lparr>trace = trace v @ [Timer_Timeout False, CS_Enable,
                                Transmit [CMD_READ_STATUS] False, CS_Disable],
             dev = spi_cs_disable S dx\<rparr>))
   \<and> (sw_timer_timeout S (dev v) = (False, dt)
        \<and> spi_transmit S [CMD_READ_STATUS] (spi_cs_enable S dt) = (True, dx)
        \<and> spi_receive S 1 dx = ((False, data), dr) \<longrightarrow>
        busy_loop S memOpcode st v =
          Some (IS25LP080D_ERROR,
            \<lparr>trace = trace v @ [Timer_Timeout False, CS_Enable,
                                Transmit [CMD_READ_STATUS] True, Receive 1 (take 1 data) False,
                                CS_Disable],
             dev = spi_cs_disable S dr\<rparr>))
   \<and> (sw_timer_timeout S (dev v) = (False, dt)
        \<and> spi_transmit S [CMD_READ_STATUS] (spi_cs_enable S dt) = (True, dx)
        \<and> spi_receive S 1 dx = ((True, [s]), dr) \<longrightarrow>
        busy_loop S memOpcode st v =
          (if s AND 0x01 = 0
           then Some (0, \<lparr>trace = trace v @ poll_events s, dev = spi_cs_disable S dr\<rparr>)
           else busy_loop S memOpcode s
                  \<lparr>trace = trace v @ poll_events s, dev = spi_cs_disable S dr\<rparr>))
   \<and> (IS25LP080D_WaitWhileBusy S memOpcode w = Some (r, w') \<longrightarrow>
        (\<exists>t. trace w' = trace w @ Load_Timer # t \<and> busy_run memOpcode 0 t r))
   \<and> (sw_timer_timeout S (load_sw_timer S (dev w)) = (False, d1)
        \<and> spi_transmit S [CMD_READ_STATUS] (spi_cs_enable S d1) = (True, d2)
        \<and> spi_receive S 1 d2 = ((True, [status]), d3)
        \<and> status AND 0x01 = 0 \<longrightarrow>
      IS25LP080D_WaitWhileBusy S memOpcode w =
        Some (0, \<lparr>trace = trace w @ [Load_Timer, Timer_Timeout False, CS_Enable,
                    Transmit [CMD_READ_STATUS] True, Receive 1 [status] True, CS_Disable],
                  dev = spi_cs_disable S d3\<rparr>))
   \<and> IS25LP080D_WaitWhileBusy countdown memOpcode \<lparr>trace = t0, dev = n\<rparr> =
        Some (0, \<lparr>trace = t0 @ Load_Timer # concat (replicate n (poll_events 0x01))
                            @ poll_events 0x00,
                  dev = 0\<rparr>)
   \<and> IS25LP080D_WaitWhileBusy (stub True limit 0x01) memOpcode \<lparr>trace = t0, dev = n\<rparr> =
        Some (IS25LP080D_ERROR,
          \<lparr>trace = t0 @ Load_Timer # concat (replicate limit (poll_events 0x01))
                      @ [Timer_Timeout True, RTT_Printf memOpcode,
                         ManageEventError True memOpcode],
           dev = Suc limit\<rparr>)"
proof -
  have a: "IS25LP080D_WaitWhileBusy S memOpcode w =
      busy_loop S memOpcode 0 \<lparr>trace = trace w @ [Load_Timer], dev = load_sw_timer S (dev w)\<rparr>"
    by (simp add: wait_start after_def)
  have b: "busy_loop S memOpcode st v =
          Some (IS25LP080D_ERROR,
            \<lparr>trace = trace v @ [Timer_Timeout True, RTT_Printf memOpcode,
                                ManageEventError True memOpcode],
             dev = dt\<rparr>)"
    if "sw_timer_timeout S (dev v) = (True, dt)"
    using busy_loop_expired [OF that] by (simp add: after_def timeout_events_def)
  have c: "busy_loop S memOpcode st v =
          Some (IS25LP080D_ERROR,
            \<lparr>trace = trace v @ [Timer_Timeout False, CS_Enable,
                                Transmit [CMD_READ_STATUS] False, CS_Disable],
             dev = spi_cs_disable S dx\<rparr>)"
    if "sw_timer_timeout S (dev v) = (False, dt)"
      and "spi_transmit S [CMD_READ_STATUS] (spi_cs_enable S dt) = (False, dx)"
    using busy_loop_tx_failed [OF that] by (simp add: after_def)
  have d: "busy_loop S memOpcode st v =
          Some (IS25LP080D_ERROR,
            \<lparr>trace = trace v @ [Timer_Timeout False, CS_Enable,
                                Transmit [CMD_READ_STATUS] True, Receive 1 (take 1 data) False,
                                CS_Disable],
             dev = spi_cs_disable S dr\<rparr>)"
    if "sw_timer_timeout S (dev v) = (False, dt)"
      and "spi_transmit S [CMD_READ_STATUS] (spi_cs_enable S dt) = (True, dx)"
      and "spi_receive S 1 dx = ((False, data), dr)"
    using busy_loop_rx_failed [OF that] by (simp add: after_def)
  have e: "busy_loop S memOpcode st v =
          (if s AND 0x01 = 0
           then Some (0, \<lparr>trace = trace v @ poll_events s, dev = spi_cs_disable S dr\<rparr>)
           else busy_loop S memOpcode s
                  \<lparr>trace = trace v @ poll_events s, dev = spi_cs_disable S dr\<rparr>)"
    if "sw_timer_timeout S (dev v) = (False, dt)"
      and "spi_transmit S [CMD_READ_STATUS] (spi_cs_enable S dt) = (True, dx)"
      and "spi_receive S 1 dx = ((True, [s]), dr)"
    using busy_loop_ready [OF that] busy_loop_again [OF that]
    by (simp add: after_def)
  have f: "\<exists>t. trace w' = trace w @ Load_Timer # t \<and> busy_run memOpcode 0 t r"
    if "IS25LP080D_WaitWhileBusy S memOpcode w = Some (r, w')"
    using wait_run [OF that] .
  have g: "IS25LP080D_WaitWhileBusy S memOpcode w =
        Some (0, \<lparr>trace = trace w @ [Load_Timer, Timer_Timeout False, CS_Enable,
                    Transmit [CMD_READ_STATUS] True, Receive 1 [status] True, CS_Disable],
                  dev = spi_cs_disable S d3\<rparr>)"
    if "sw_timer_timeout S (load_sw_timer S (dev w)) = (False, d1)"
      and "spi_transmit S [CMD_READ_STATUS] (spi_cs_enable S d1) = (True, d2)"
      and "spi_receive S 1 d2 = ((True, [status]), d3)"
      and "status AND 0x01 = 0"
    using that by (simp add: IS25LP080D_WaitWhileBusy_def busy_loop.simps prims)
  have h: "IS25LP080D_WaitWhileBusy countdown memOpcode \<lparr>trace = t0, dev = n\<rparr> =
        Some (0, \<lparr>trace = t0 @ Load_Timer # concat (replicate n (poll_events 0x01))
                            @ poll_events 0x00,
                  dev = 0\<rparr>)"
    by (simp add: countdown_wait after_def)
  have i: "IS25LP080D_WaitWhileBusy (stub True limit 0x01) memOpcode \<lparr>trace = t0, dev = n\<rparr> =
        Some (IS25LP080D_ERROR,
          \<lparr>trace = t0 @ Load_Timer # concat (replicate limit (poll_events 0x01))
                      @ [Timer_Timeout True, RTT_Printf memOpcode,
                         ManageEventError True memOpcode],
           dev = Suc limit\<rparr>)"
    by (simp add: stub_wait_times_out after_def timeout_events_def)
  from a b c d e f g h i show ?thesis by blast
qed

theorem busy_wait_iteration_witness:
  "IS25LP080D_WaitWhileBusy countdown CMD_PAGE_PROGRAM \<lparr>trace = [], dev = 1\<rparr> =
      Some (0, \<lparr>trace = [Load_Timer,
        Timer_Timeout False, CS_Enable, Transmit [0x05] True, Receive 1 [0x01] True, CS_Disable,
        Timer_Timeout False, CS_Enable, Transmit [0x05] True, Receive 1 [0x00] True, CS_Disable],
        dev = 0\<rparr>)
   \<and> busy_run CMD_PAGE_PROGRAM 0
       [Timer_Timeout False, CS_Enable, Transmit [0x05] True, Receive 1 [0x01] True, CS_Disable,
        Timer_Timeout False, CS_Enable, Transmit [0x05] True, Receive 1 [0x00] True, CS_Disable] 0
   \<and> IS25LP080D_WaitWhileBusy (stub True 1 0x01) CMD_PAGE_PROGRAM idle =
      Some (IS25LP080D_ERROR, \<lparr>trace = [Load_Timer,
        Timer_Timeout False, CS_Enable, Transmit [0x05] True, Receive 1 [0x01] True, CS_Disable,
        Timer_Timeout True, RTT_Printf 0x02, ManageEventError True 0x02], dev = 2\<rparr>)
   \<and> IS25LP080D_WaitWhileBusy (stub True 3 0x00) CMD_PAGE_PROGRAM idle =
      Some (0, \<lparr>trace = [Load_Timer,
        Timer_Timeout False, CS_Enable, Transmit [0x05] True, Receive 1 [0x00] True, CS_Disable],
        dev = 1\<rparr>)
   \<and> IS25LP080D_WaitWhileBusy (stub False 3 0x00) CMD_PAGE_PROGRAM idle =
      Some (IS25LP080D_ERROR, \<lparr>trace = [Load_Timer,
        Timer_Timeout False, CS_Enable, Transmit [0x05] False, CS_Disable], dev = 1\<rparr>)
   \<and> IS25LP080D_WaitWhileBusy
        ((stub True 3 0x00)\<lparr>spi_receive := \<lambda>n d. ((False, []), d)\<rparr>) CMD_PAGE_PROGRAM idle =
      Some (IS25LP080D_ERROR, \<lparr>trace = [Load_Timer,
        Timer_Timeout False, CS_Enable, Transmit [0x05] True, Receive 1 [] False, CS_Disable],
        dev = 1\<rparr>)"
proof -
  have start: "IS25LP080D_WaitWhileBusy S op w =
      busy_loop S op 0 \<lparr>trace = trace w @ [Load_Timer], dev = load_sw_timer S (dev w)\<rparr>"
    for S :: "nat services" and op w
    using busy_wait_iteration [where S = S and memOpcode = op and w = w] by blast
  have expired: "busy_loop S op st v =
      Some (IS25LP080D_ERROR,
        \<lparr>trace = trace v @ [Timer_Timeout True, RTT_Printf op, ManageEventError True op],
         dev = dt\<rparr>)"
    if "sw_timer_timeout S (dev v) = (True, dt)" for S :: "nat services" and op st v dt
    using busy_wait_iteration [where S = S and memOpcode = op and v = v and st = st and dt = dt]
      that by blast
  have tx_failed: "busy_loop S op st v =
      Some (IS25LP080D_ERROR,
        \<lparr>trace = trace v @ [Timer_Timeout False, CS_Enable,
                            Transmit [CMD_READ_STATUS] False, CS_Disable],
         dev = spi_cs_disable S dx\<rparr>)"
    if "sw_timer_timeout S (dev v) = (False, dt)"
      and "spi_transmit S [CMD_READ_STATUS] (spi_cs_enable S dt) = (False, dx)"
    for S :: "nat services" and op st v dt dx
    using busy_wait_iteration [where S = S and memOpcode = op and v = v and st = st and dt = dt
        and dx = dx] that by blast
  have rx_failed: "busy_loop S op st v =
      Some (IS25LP080D_ERROR,
        \<lparr>trace = trace v @ [Timer_Timeout False, CS_Enable,
                            Transmit [CMD_READ_STATUS] True, Receive 1 (take 1 data) False,
                            CS_Disable],
         dev = spi_cs_disable S dr\<rparr>)"
    if "sw_timer_timeout S (dev v) = (False, dt)"
      and "spi_transmit S [CMD_READ_STATUS] (spi_cs_enable S dt) = (True, dx)"
      and "spi_receive S 1 dx = ((False, data), dr)"
    for S :: "nat services" and op st v dt dx dr data
    using busy_wait_iteration [where S = S and memOpcode = op and v = v and st = st and dt = dt
        and dx = dx and dr = dr and data = data] that by blast
  have polled: "busy_loop S op st v =
      (if s AND 0x01 = 0
       then Some (0, \<lparr>trace = trace v @ poll_events s, dev = spi_cs_disable S dr\<rparr>)
       else busy_loop S op s \<lparr>trace = trace v @ poll_events s, dev = spi_cs_disable S dr\<rparr>)"
    if "sw_timer_timeout S (dev v) = (False, dt)"
      and "spi_transmit S [CMD_READ_STATUS] (spi_cs_enable S dt) = (True, dx)"
      and "spi_receive S 1 dx = ((True, [s]), dr)"
    for S :: "nat services" and op st v dt dx dr s
    using busy_wait_iteration [where S = S and memOpcode = op and v = v and st = st and dt = dt
        and dx = dx and dr = dr and s = s] that by blast
  have runs: "\<exists>t. trace w' = trace w @ Load_Timer # t \<and> busy_run op 0 t r"
    if "IS25LP080D_WaitWhileBusy S op w = Some (r, w')"
    for S :: "nat services" and op w r w'
    using busy_wait_iteration [where S = S and memOpcode = op and w = w and r = r and w' = w']
      that by blast
  have first_ready: "IS25LP080D_WaitWhileBusy S op w =
        Some (0, \<lparr>trace = trace w @ [Load_Timer, Timer_Timeout False, CS_Enable,
                    Transmit [CMD_READ_STATUS] True, Receive 1 [status] True, CS_Disable],
                  dev = spi_cs_disable S d3\<rparr>)"
    if "sw_timer_timeout S (load_sw_timer S (dev w)) = (False, d1)"
      and "spi_transmit S [CMD_READ_STATUS] (spi_cs_enable S d1) = (True, d2)"
      and "spi_receive S 1 d2 = ((True, [status]), d3)"
      and "status AND 0x01 = 0"
    for S :: "nat services" and op w d1 d2 d3 status
    using busy_wait_iteration [where S = S and memOpcode = op and w = w and ?d1.0 = d1
        and ?d2.0 = d2 and ?d3.0 = d3 and status = status] that by blast
  let ?C = "countdown"
  let ?p1 = "[Timer_Timeout False, CS_Enable, Transmit [0x05] True, Receive 1 [0x01] True,
      CS_Disable]"
  let ?p0 = "[Timer_Timeout False, CS_Enable, Transmit [0x05] True, Receive 1 [0x00] True,
      CS_Disable]"
  have pe: "poll_events s = [Timer_Timeout False, CS_Enable, Transmit [0x05] True,
      Receive 1 [s] True, CS_Disable]" for s
    by (simp add: poll_events_def CMD_READ_STATUS_def)
  have c0: "IS25LP080D_WaitWhileBusy ?C CMD_PAGE_PROGRAM \<lparr>trace = [], dev = 1\<rparr> =
      busy_loop ?C CMD_PAGE_PROGRAM 0 \<lparr>trace = [Load_Timer], dev = 1\<rparr>"
    by (simp add: start) (simp add: countdown_def)
  have c1: "busy_loop ?C CMD_PAGE_PROGRAM 0 \<lparr>trace = [Load_Timer], dev = 1\<rparr> =
      busy_loop ?C CMD_PAGE_PROGRAM 0x01 \<lparr>trace = Load_Timer # ?p1, dev = 0\<rparr>"
    using polled [where S = ?C and op = CMD_PAGE_PROGRAM
        and v = "\<lparr>trace = [Load_Timer], dev = 1\<rparr>" and st = 0 and dt = 1 and dx = 1
        and dr = 0 and s = "0x01"]
    by (simp add: countdown_def pe CMD_READ_STATUS_def)
  have c2: "busy_loop ?C CMD_PAGE_PROGRAM 0x01 \<lparr>trace = Load_Timer # ?p1, dev = 0\<rparr> =
      Some (0, \<lparr>trace = Load_Timer # ?p1 @ ?p0, dev = 0\<rparr>)"
    using polled [where S = ?C and op = CMD_PAGE_PROGRAM
        and v = "\<lparr>trace = Load_Timer # ?p1, dev = 0\<rparr>" and st = "0x01" and dt = 0 and dx = 0
        and dr = 0 and s = "0x00"]
    by (simp add: countdown_def pe CMD_READ_STATUS_def)
  from c0 c1 c2
  have run: "IS25LP080D_WaitWhileBusy ?C CMD_PAGE_PROGRAM \<lparr>trace = [], dev = 1\<rparr> =
      Some (0, \<lparr>trace = Load_Timer # ?p1 @ ?p0, dev = 0\<rparr>)"
    by simp
  from runs [OF run]
  have br: "busy_run CMD_PAGE_PROGRAM 0 (?p1 @ ?p0) 0"
    by simp
  let ?B = "stub True 1 0x01"
  have b0: "IS25LP080D_WaitWhileBusy ?B CMD_PAGE_PROGRAM idle =
      busy_loop ?B CMD_PAGE_PROGRAM 0 \<lparr>trace = [Load_Timer], dev = 0\<rparr>"
    by (simp add: start) (simp add: stub_def idle_def)
  have b1: "busy_loop ?B CMD_PAGE_PROGRAM 0 \<lparr>trace = [Load_Timer], dev = 0\<rparr> =
      busy_loop ?B CMD_PAGE_PROGRAM 0x01 \<lparr>trace = Load_Timer # ?p1, dev = 1\<rparr>"
    using polled [where S = ?B and op = CMD_PAGE_PROGRAM
        and v = "\<lparr>trace = [Load_Timer], dev = 0\<rparr>" and st = 0 and dt = 1 and dx = 1
        and dr = 1 and s = "0x01"]
    by (simp add: stub_def pe CMD_READ_STATUS_def)
  have b2: "busy_loop ?B CMD_PAGE_PROGRAM 0x01 \<lparr>trace = Load_Timer # ?p1, dev = 1\<rparr> =
      Some (IS25LP080D_ERROR, \<lparr>trace = Load_Timer # ?p1 @
        [Timer_Timeout True, RTT_Printf 0x02, ManageEventError True 0x02], dev = 2\<rparr>)"
    using expired [where S = ?B and op = CMD_PAGE_PROGRAM
        and v = "\<lparr>trace = Load_Timer # ?p1, dev = 1\<rparr>" and st = "0x01" and dt = 2]
    by (simp add: stub_def CMD_PAGE_PROGRAM_def)
  have r0: "IS25LP080D_WaitWhileBusy (stub True 3 0x00) CMD_PAGE_PROGRAM idle =
      Some (0, \<lparr>trace = Load_Timer # ?p0, dev = 1\<rparr>)"
    using first_ready [where S = "stub True 3 0x00" and op = CMD_PAGE_PROGRAM
        and w = idle and ?d1.0 = 1 and ?d2.0 = 1 and ?d3.0 = 1 and status = 0]
    by (simp add: stub_def idle_def CMD_READ_STATUS_def)
  let ?F = "stub False 3 0x00"
  have f0: "IS25LP080D_WaitWhileBusy ?F CMD_PAGE_PROGRAM idle =
      busy_loop ?F CMD_PAGE_PROGRAM 0 \<lparr>trace = [Load_Timer], dev = 0\<rparr>"
    by (simp add: start) (simp add: stub_def idle_def)
  have f1: "busy_loop ?F CMD_PAGE_PROGRAM 0 \<lparr>trace = [Load_Timer], dev = 0\<rparr> =
      Some (IS25LP080D_ERROR, \<lparr>trace = [Load_Timer,
        Timer_Timeout False, CS_Enable, Transmit [0x05] False, CS_Disable], dev = 1\<rparr>)"
    using tx_failed [where S = ?F and op = CMD_PAGE_PROGRAM
        and v = "\<lparr>trace = [Load_Timer], dev = 0\<rparr>" and st = 0 and dt = 1 and dx = 1]
    by (simp add: stub_def CMD_READ_STATUS_def)
  let ?R = "(stub True 3 0x00)\<lparr>spi_receive := \<lambda>n d. ((False, []), d)\<rparr>"
  have g0: "IS25LP080D_WaitWhileBusy ?R CMD_PAGE_PROGRAM idle =
      busy_loop ?R CMD_PAGE_PROGRAM 0 \<lparr>trace = [Load_Timer], dev = 0\<rparr>"
    by (simp add: start) (simp add: stub_def idle_def)
  have g1: "busy_loop ?R CMD_PAGE_PROGRAM 0 \<lparr>trace = [Load_Timer], dev = 0\<rparr> =
      Some (IS25LP080D_ERROR, \<lparr>trace = [Load_Timer,
        Timer_Timeout False, CS_Enable, Transmit [0x05] True, Receive 1 [] False, CS_Disable],
        dev = 1\<rparr>)"
    using rx_failed [where S = ?R and op = CMD_PAGE_PROGRAM
        and v = "\<lparr>trace = [Load_Timer], dev = 0\<rparr>" and st = 0 and dt = 1 and dx = 1
        and dr = 1 and data = "[]"]
    by (simp add: stub_def CMD_READ_STATUS_def)
  from run br b0 b1 b2 r0 f0 f1 g0 g1 show ?thesis by simp
qed

subsection \<open>Reporting a timeout\<close>

lemma busy_run_timed_out:
  "busy_run op st t r \<Longrightarrow> timed_out t \<Longrightarrow>
     hooks t = [RTT_Printf op, ManageEventError True op] \<and> r = IS25LP080D_ERROR"
proof (induction rule: busy_run.induct)
  case (expired st)
  show ?case by (simp add: hooks_def)
next
  case (again d st t r)
  from again.prems have "timed_out t" by (simp add: timed_out_def)
  with again.IH show ?case by (simp add: hooks_def)
qed (simp_all add: timed_out_def)

lemma busy_run_not_timed_out:
  "busy_run op st t r \<Longrightarrow> \<not> timed_out t \<Longrightarrow> hooks t = []"
proof (induction rule: busy_run.induct)
  case (again d st t r)
  from again.prems have "\<not> timed_out t" by (simp add: timed_out_def)
  with again.IH show ?case by (simp add: hooks_def)
qed (simp_all add: timed_out_def hooks_def)

lemma busy_run_report_ok:
  assumes "busy_run op st t r"
  shows "report_ok op t (Inr r)"
proof (cases "timed_out t")
  case True
  with busy_run_timed_out [OF assms] show ?thesis
    by (simp add: report_ok_def reported_def IS25LP080D_ERROR_def)
next
  case False
  with busy_run_not_timed_out [OF assms] show ?thesis
    by (simp add: report_ok_def reported_def)
qed

lemma report_ok_Nil [simp]: "report_ok op [] r"
  by (simp add: report_ok_def reported_def hooks_def timed_out_def)

lemma report_ok_Cons [simp]:
  "\<not> is_hook e \<Longrightarrow> e \<noteq> Timer_Timeout True \<Longrightarrow> report_ok op (e # t) r = report_ok op t r"
  by (auto simp add: report_ok_def reported_def hooks_def timed_out_def)

lemma report_ok_iff:
  "report_ok op t r \<longleftrightarrow>
     reported op t \<and> (timed_out t \<longrightarrow> r = Inr IS25LP080D_ERROR) \<and> (r = Inr 0 \<longrightarrow> hooks t = [])"
  by (simp add: report_ok_def)

lemma wait_report_ok:
  assumes "IS25LP080D_WaitWhileBusy S op w = Some (r, w')"
  shows "\<exists>t. trace w' = trace w @ t \<and> report_ok op t (Inr r)"
proof -
  from wait_run [OF assms] obtain t where t: "trace w' = trace w @ Load_Timer # t"
    and run: "busy_run op 0 t r" by blast
  from busy_run_report_ok [OF run] have "report_ok op (Load_Timer # t) (Inr r)" by simp
  with t show ?thesis by blast
qed

lemma program_report_ok:
  assumes "IS25LP080D_Program S addr pbuf sz w = Some (r, w')"
  shows "\<exists>t. trace w' = trace w @ t \<and> report_ok CMD_PAGE_PROGRAM t r"
  using assms
  by (auto simp add: IS25LP080D_Program_def Let_def split_beta returned_Some_iff
      split: option.splits if_splits dest!: wait_report_ok)

lemma erase_send_report_ok:
  assumes "erase_send S cmd w = Some (r, w')"
  shows "\<exists>t. trace w' = trace w @ t \<and> report_ok (cmd ! 0) t r"
  using assms
  by (auto simp add: erase_send_def Let_def split_beta returned_Some_iff
      split: option.splits if_splits dest!: wait_report_ok)

lemma erase_report_ok:
  assumes "IS25LP080D_Erase S addr sz w = Some (r, w')"
  shows "\<exists>t. trace w' = trace w @ t
      \<and> report_ok (if sz = 4096 then CMD_SECTOR_ERASE else CMD_BLOCK_ERASE) t r"
  using assms
  by (auto simp add: IS25LP080D_Erase_def cmd_frame_def split: if_splits
      dest!: erase_send_report_ok)

text \<open>
  C6. When the busy-wait times out, the diagnostic emitter \<open>RTT_Printf\<close> and the error
  manager \<open>ManageEventError\<close> are each called exactly once, in this order, both with the
  opcode of the operation (the page-program opcode for program, the sector- or
  block-erase opcode for erase) and the error manager with the flag \<open>true\<close>, and the call
  returns \<open>IS25LP080D_ERROR\<close>, the driver's one error code; a call during which the timer
  has not reported expiry calls no hook, so a call that returns 0 has called none. This
  holds of every busy-wait, program and erase that returns, for every transport and timer.
  And the calls that time out do return: a busy-wait whose timer reports expiry at its
  first check returns \<open>IS25LP080D_ERROR\<close> with the two hook calls as its last events, for
  every transport and timer; a program and an erase whose transmissions succeed are the
  busy-wait with their opcode; and on a device that always reports busy, with a timer
  that expires at its check number \<open>limit\<close>, the busy-wait, program and erase (of a
  sector and of a block) all return \<open>IS25LP080D_ERROR\<close> after \<open>limit\<close> polls, with the
  two hook calls, once each, as the last events.
\<close>

theorem timeout_reported_once:
  "(\<forall>r w'. IS25LP080D_WaitWhileBusy S memOpcode w = Some (r, w') \<longrightarrow>
      (\<exists>t. trace w' = trace w @ t \<and> reported memOpcode t
          \<and> (timed_out t \<longrightarrow> r = IS25LP080D_ERROR) \<and> (r = 0 \<longrightarrow> hooks t = [])))
   \<and> (\<forall>r w'. IS25LP080D_Program S addr pbuf sz w = Some (r, w') \<longrightarrow>
      (\<exists>t. trace w' = trace w @ t \<and> reported CMD_PAGE_PROGRAM t
          \<and> (timed_out t \<longrightarrow> r = Inr IS25LP080D_ERROR) \<and> (r = Inr 0 \<longrightarrow> hooks t = [])))
   \<and> (\<forall>r w'. IS25LP080D_Erase S addr sz w = Some (r, w') \<longrightarrow>
      (\<exists>t. trace w' = trace w @ t
          \<and> reported (if sz = 4096 then CMD_SECTOR_ERASE else CMD_BLOCK_ERASE) t
          \<and> (timed_out t \<longrightarrow> r = Inr IS25LP080D_ERROR) \<and> (r = Inr 0 \<longrightarrow> hooks t = [])))
   \<and> (sw_timer_timeout S (load_sw_timer S (dev w)) = (True, dt) \<longrightarrow>
        IS25LP080D_WaitWhileBusy S memOpcode w =
          Some (IS25LP080D_ERROR,
            \<lparr>trace = trace w @ [Load_Timer, Timer_Timeout True, RTT_Printf memOpcode,
                                ManageEventError True memOpcode],
             dev = dt\<rparr>))
   \<and> (addr < 0x100000 \<and> sz \<le> 0x100000
        \<and> spi_transmit S [CMD_WRITE_ENABLE] (spi_cs_enable S (dev w)) = (True, da)
        \<and> spi_transmit S (cmd_frame CMD_PAGE_PROGRAM addr)
            (spi_cs_enable S (spi_cs_disable S da)) = (True, db)
        \<and> spi_transmit S (take (unat sz) buf) db = (True, dc) \<longrightarrow>
        IS25LP080D_Program S addr (Some buf) sz w =
          returned (IS25LP080D_WaitWhileBusy S CMD_PAGE_PROGRAM
            \<lparr>trace = trace w
                @ program_events (cmd_frame CMD_PAGE_PROGRAM addr) (take (unat sz) buf),
             dev = spi_cs_disable S dc\<rparr>))
   \<and> (addr < 0x100000
        \<and> (sz = 4096 \<and> opc = CMD_SECTOR_ERASE \<or> sz = 65536 \<and> opc = CMD_BLOCK_ERASE)
        \<and> spi_transmit S [CMD_WRITE_ENABLE] (spi_cs_enable S (dev w)) = (True, da)
        \<and> spi_transmit S (cmd_frame opc addr) (spi_cs_enable S (spi_cs_disable S da))
            = (True, db) \<longrightarrow>
        IS25LP080D_Erase S addr sz w =
          returned (IS25LP080D_WaitWhileBusy S opc
            \<lparr>trace = trace w @ erase_events (cmd_frame opc addr),
             dev = spi_cs_disable S db\<rparr>))
   \<and> IS25LP080D_WaitWhileBusy (stub True limit 0x01) memOpcode \<lparr>trace = t0, dev = n\<rparr> =
        Some (IS25LP080D_ERROR,
          \<lparr>trace = t0 @ Load_Timer # concat (replicate limit (poll_events 0x01))
                      @ [Timer_Timeout True, RTT_Printf memOpcode,
                         ManageEventError True memOpcode],
           dev = Suc limit\<rparr>)
   \<and> (addr < 0x100000 \<and> sz \<le> 0x100000 \<longrightarrow>
        IS25LP080D_Program (stub True limit 0x01) addr (Some buf) sz \<lparr>trace = t0, dev = n\<rparr> =
          Some (Inr IS25LP080D_ERROR,
            \<lparr>trace = t0
                @ program_events (cmd_frame CMD_PAGE_PROGRAM addr) (take (unat sz) buf)
                @ Load_Timer # concat (replicate limit (poll_events 0x01))
                @ [Timer_Timeout True, RTT_Printf CMD_PAGE_PROGRAM,
                   ManageEventError True CMD_PAGE_PROGRAM],
             dev = Suc limit\<rparr>))
   \<and> (addr < 0x100000
        \<and> (sz = 4096 \<and> opc = CMD_SECTOR_ERASE \<or> sz = 65536 \<and> opc = CMD_BLOCK_ERASE) \<longrightarrow>
        IS25LP080D_Erase (stub True limit 0x01) addr sz \<lparr>trace = t0, dev = n\<rparr> =
          Some (Inr IS25LP080D_ERROR,
            \<lparr>trace = t0 @ erase_events (cmd_frame opc addr)
                @ Load_Timer # concat (replicate limit (poll_events 0x01))
                @ [Timer_Timeout True, RTT_Printf opc, ManageEventError True opc],
             dev = Suc limit\<rparr>))"
proof -
  have a: "\<forall>r w'. IS25LP080D_WaitWhileBusy S memOpcode w = Some (r, w') \<longrightarrow>
      (\<exists>t. trace w' = trace w @ t \<and> reported memOpcode t
          \<and> (timed_out t \<longrightarrow> r = IS25LP080D_ERROR) \<and> (r = 0 \<longrightarrow> hooks t = []))"
  proof (intro allI impI)
    fix r w' assume "IS25LP080D_WaitWhileBusy S memOpcode w = Some (r, w')"
    from wait_report_ok [OF this]
    show "\<exists>t. trace w' = trace w @ t \<and> reported memOpcode t
          \<and> (timed_out t \<longrightarrow> r = IS25LP080D_ERROR) \<and> (r = 0 \<longrightarrow> hooks t = [])"
      by (simp add: report_ok_iff)
  qed
  have b: "\<forall>r w'. IS25LP080D_Program S addr pbuf sz w = Some (r, w') \<longrightarrow>
      (\<exists>t. trace w' = trace w @ t \<and> reported CMD_PAGE_PROGRAM t
          \<and> (timed_out t \<longrightarrow> r = Inr IS25LP080D_ERROR) \<and> (r = Inr 0 \<longrightarrow> hooks t = []))"
  proof (intro allI impI)
    fix r w' assume "IS25LP080D_Program S addr pbuf sz w = Some (r, w')"
    from program_report_ok [OF this]
    show "\<exists>t. trace w' = trace w @ t \<and> reported CMD_PAGE_PROGRAM t
          \<and> (timed_out t \<longrightarrow> r = Inr IS25LP080D_ERROR) \<and> (r = Inr 0 \<longrightarrow> hooks t = [])"
      by (simp add: report_ok_iff)
  qed
  have c: "\<forall>r w'. IS25LP080D_Erase S addr sz w = Some (r, w') \<longrightarrow>
      (\<exists>t. trace w' = trace w @ t
          \<and> reported (if sz = 4096 then CMD_SECTOR_ERASE else CMD_BLOCK_ERASE) t
          \<and> (timed_out t \<longrightarrow> r = Inr IS25LP080D_ERROR) \<and> (r = Inr 0 \<longrightarrow> hooks t = []))"
  proof (intro allI impI)
    fix r w' assume "IS25LP080D_Erase S addr sz w = Some (r, w')"
    from erase_report_ok [OF this]
    show "\<exists>t. trace w' = trace w @ t
          \<and> reported (if sz = 4096 then CMD_SECTOR_ERASE else CMD_BLOCK_ERASE) t
          \<and> (timed_out t \<longrightarrow> r = Inr IS25LP080D_ERROR) \<and> (r = Inr 0 \<longrightarrow> hooks t = [])"
      by (simp add: report_ok_iff)
  qed
  have d: "IS25LP080D_WaitWhileBusy S memOpcode w =
          Some (IS25LP080D_ERROR,
            \<lparr>trace = trace w @ [Load_Timer, Timer_Timeout True, RTT_Printf memOpcode,
                                ManageEventError True memOpcode],
             dev = dt\<rparr>)"
    if "sw_timer_timeout S (load_sw_timer S (dev w)) = (True, dt)"
    using wait_expired [OF that] by (simp add: after_def timeout_events_def)
  have e: "IS25LP080D_Program S addr (Some buf) sz w =
          returned (IS25LP080D_WaitWhileBusy S CMD_PAGE_PROGRAM
            \<lparr>trace = trace w
                @ program_events (cmd_frame CMD_PAGE_PROGRAM addr) (take (unat sz) buf),
             dev = spi_cs_disable S dc\<rparr>)"
    if "addr < 0x100000" and "sz \<le> 0x100000"
      and "spi_transmit S [CMD_WRITE_ENABLE] (spi_cs_enable S (dev w)) = (True, da)"
      and "spi_transmit S (cmd_frame CMD_PAGE_PROGRAM addr)
            (spi_cs_enable S (spi_cs_disable S da)) = (True, db)"
      and "spi_transmit S (take (unat sz) buf) db = (True, dc)"
    using program_sent [OF that] by (simp add: after_def)
  have f: "IS25LP080D_Erase S addr sz w =
          returned (IS25LP080D_WaitWhileBusy S opc
            \<lparr>trace = trace w @ erase_events (cmd_frame opc addr),
             dev = spi_cs_disable S db\<rparr>)"
    if "addr < 0x100000"
      and "sz = 4096 \<and> opc = CMD_SECTOR_ERASE \<or> sz = 65536 \<and> opc = CMD_BLOCK_ERASE"
      and "spi_transmit S [CMD_WRITE_ENABLE] (spi_cs_enable S (dev w)) = (True, da)"
      and "spi_transmit S (cmd_frame opc addr) (spi_cs_enable S (spi_cs_disable S da))
            = (True, db)"
    using erase_sent [OF that] by (simp add: after_def)
  have g: "IS25LP080D_WaitWhileBusy (stub True limit 0x01) memOpcode \<lparr>trace = t0, dev = n\<rparr> =
        Some (IS25LP080D_ERROR,
          \<lparr>trace = t0 @ Load_Timer # concat (replicate limit (poll_events 0x01))
                      @ [Timer_Timeout True, RTT_Printf memOpcode,
                         ManageEventError True memOpcode],
           dev = Suc limit\<rparr>)"
    by (simp add: stub_wait_times_out after_def timeout_events_def)
  have h: "IS25LP080D_Program (stub True limit 0x01) addr (Some buf) sz \<lparr>trace = t0, dev = n\<rparr> =
          Some (Inr IS25LP080D_ERROR,
            \<lparr>trace = t0
                @ program_events (cmd_frame CMD_PAGE_PROGRAM addr) (take (unat sz) buf)
                @ Load_Timer # concat (replicate limit (poll_events 0x01))
                @ [Timer_Timeout True, RTT_Printf CMD_PAGE_PROGRAM,
                   ManageEventError True CMD_PAGE_PROGRAM],
             dev = Suc limit\<rparr>)"
    if "addr < 0x100000" and "sz \<le> 0x100000"
    using stub_program_times_out [OF that] by (simp add: after_def timeout_events_def)
  have i: "IS25LP080D_Erase (stub True limit 0x01) addr sz \<lparr>trace = t0, dev = n\<rparr> =
          Some (Inr IS25LP080D_ERROR,
            \<lparr>trace = t0 @ erase_events (cmd_frame opc addr)
                @ Load_Timer # concat (replicate limit (poll_events 0x01))
                @ [Timer_Timeout True, RTT_Printf opc, ManageEventError True opc],
             dev = Suc limit\<rparr>)"
    if "addr < 0x100000"
      and "sz = 4096 \<and> opc = CMD_SECTOR_ERASE \<or> sz = 65536 \<and> opc = CMD_BLOCK_ERASE"
    using stub_erase_times_out [OF that] by (simp add: after_def timeout_events_def)
  show ?thesis
    by (intro conjI impI; (elim conjE)?; (rule a b c d e f g h i; assumption))
qed

theorem timeout_reported_once_witness:
  "IS25LP080D_Program (stub True 2 0x01) 0x012345 (Some [0xAA, 0xBB]) 2 idle =
     Some (Inr IS25LP080D_ERROR, program_timed_out)
   \<and> timed_out (trace program_timed_out)
   \<and> hooks (trace program_timed_out) = [RTT_Printf 0x02, ManageEventError True 0x02]
   \<and> IS25LP080D_Erase (stub True 1 0x01) 0x012345 4096 idle =
       Some (Inr IS25LP080D_ERROR,
         \<lparr>trace = [CS_Enable, Transmit [0x06] True, CS_Disable,
            CS_Enable, Transmit [0x20, 0x01, 0x23, 0x45] True, CS_Disable, Load_Timer,
            Timer_Timeout False, CS_Enable, Transmit [0x05] True, Receive 1 [1] True, CS_Disable,
            Timer_Timeout True, RTT_Printf 0x20, ManageEventError True 0x20], dev = 2\<rparr>)
   \<and> IS25LP080D_Erase (stub True 1 0x01) 0x012345 65536 idle =
       Some (Inr IS25LP080D_ERROR,
         \<lparr>trace = [CS_Enable, Transmit [0x06] True, CS_Disable,
            CS_Enable, Transmit [0xD8, 0x01, 0x23, 0x45] True, CS_Disable, Load_Timer,
            Timer_Timeout False, CS_Enable, Transmit [0x05] True, Receive 1 [1] True, CS_Disable,
            Timer_Timeout True, RTT_Printf 0xD8, ManageEventError True 0xD8], dev = 2\<rparr>)
   \<and> IS25LP080D_WaitWhileBusy (stub True 0 0x01) 0x20 idle =
       Some (IS25LP080D_ERROR,
         \<lparr>trace = [Load_Timer, Timer_Timeout True, RTT_Printf 0x20, ManageEventError True 0x20],
          dev = 1\<rparr>)
   \<and> IS25LP080D_WaitWhileBusy (stub True 2 0x01) CMD_PAGE_PROGRAM idle =
       Some (IS25LP080D_ERROR, wait_timed_out)
   \<and> hooks (trace wait_timed_out) = [RTT_Printf 0x02, ManageEventError True 0x02]
   \<and> IS25LP080D_Program (stub True 0 0x01) 0x012345 (Some [0xAA, 0xBB]) 2 idle =
       Some (Inr IS25LP080D_ERROR,
         \<lparr>trace = [CS_Enable, Transmit [0x06] True, CS_Disable,
            CS_Enable, Transmit [0x02, 0x01, 0x23, 0x45] True, Transmit [0xAA, 0xBB] True,
            CS_Disable,
            Load_Timer, Timer_Timeout True, RTT_Printf 0x02, ManageEventError True 0x02],
          dev = 1\<rparr>)
   \<and> IS25LP080D_Erase (stub True 0 0x01) 0x012345 65536 idle =
       Some (Inr IS25LP080D_ERROR,
         \<lparr>trace = [CS_Enable, Transmit [0x06] True, CS_Disable,
            CS_Enable, Transmit [0xD8, 0x01, 0x23, 0x45] True, CS_Disable,
            Load_Timer, Timer_Timeout True, RTT_Printf 0xD8, ManageEventError True 0xD8],
          dev = 1\<rparr>)
   \<and> IS25LP080D_Erase (stub True 3 0x00) 0x012345 4096 idle = Some (Inr 0, erase_done)
   \<and> hooks (trace erase_done) = []"
proof -
  note wait_ok = timeout_reported_once [THEN conjunct1, rule_format]
  note erase_sent' =
    timeout_reported_once [THEN conjunct2, THEN conjunct2, THEN conjunct2, THEN conjunct2,
      THEN conjunct2, THEN conjunct1, rule_format]
  note busy_wait =
    timeout_reported_once [THEN conjunct2, THEN conjunct2, THEN conjunct2, THEN conjunct2,
      THEN conjunct2, THEN conjunct2, THEN conjunct1, rule_format]
  note program_ok = timeout_reported_once [THEN conjunct2, THEN conjunct1, rule_format]
  note erase_ok =
    timeout_reported_once [THEN conjunct2, THEN conjunct2, THEN conjunct1, rule_format]
  note at_first_check =
    timeout_reported_once [THEN conjunct2, THEN conjunct2, THEN conjunct2, THEN conjunct1,
      rule_format]
  note program_sent' =
    timeout_reported_once [THEN conjunct2, THEN conjunct2, THEN conjunct2, THEN conjunct2,
      THEN conjunct1, rule_format]
  note busy_program =
    timeout_reported_once [THEN conjunct2, THEN conjunct2, THEN conjunct2, THEN conjunct2,
      THEN conjunct2, THEN conjunct2, THEN conjunct2, THEN conjunct1, rule_format]
  note busy_erase =
    timeout_reported_once [THEN conjunct2, THEN conjunct2, THEN conjunct2, THEN conjunct2,
      THEN conjunct2, THEN conjunct2, THEN conjunct2, THEN conjunct2, rule_format]
  let ?B = "stub True 2 0x01"
  have f: "cmd_frame c 0x012345 = [c, 0x01, 0x23, 0x45]" for c
    by (simp add: stub_eval)
  have ev: "poll_events s = [Timer_Timeout False, CS_Enable, Transmit [0x05] True,
      Receive 1 [s] True, CS_Disable]"
    "erase_events cmd = [CS_Enable, Transmit [0x06] True, CS_Disable,
      CS_Enable, Transmit cmd True, CS_Disable]"
    "program_events cmd data = [CS_Enable, Transmit [0x06] True, CS_Disable,
      CS_Enable, Transmit cmd True, Transmit data True, CS_Disable]" for s cmd data
    by (simp_all add: poll_events_def erase_events_def program_events_def
        CMD_READ_STATUS_def CMD_WRITE_ENABLE_def)
  have two: "replicate 2 x = [x, x]" for x :: "event list"
    by (simp add: numeral_2_eq_2)
  have prog: "IS25LP080D_Program ?B 0x012345 (Some [0xAA, 0xBB]) 2 idle =
      Some (Inr IS25LP080D_ERROR, program_timed_out)"
    using busy_program [where addr = "0x012345" and sz = 2 and limit = 2
        and buf = "[0xAA, 0xBB]" and ?t0.0 = "[]" and n = 0]
    by (simp add: idle_def program_timed_out_def ev f two CMD_PAGE_PROGRAM_def)
  from program_ok [OF prog]
  obtain t where t: "trace program_timed_out = trace idle @ t"
    and r: "reported CMD_PAGE_PROGRAM t" by blast
  from t have t': "t = trace program_timed_out" by (simp add: idle_def)
  have tmo: "timed_out (trace program_timed_out)"
    by (simp add: program_timed_out_def timed_out_def)
  with r t' have hk: "hooks (trace program_timed_out) =
      [RTT_Printf 0x02, ManageEventError True 0x02]"
    by (simp add: reported_def CMD_PAGE_PROGRAM_def)
  have sector: "IS25LP080D_Erase (stub True 1 0x01) 0x012345 4096 idle =
       Some (Inr IS25LP080D_ERROR,
         \<lparr>trace = [CS_Enable, Transmit [0x06] True, CS_Disable,
            CS_Enable, Transmit [0x20, 0x01, 0x23, 0x45] True, CS_Disable, Load_Timer,
            Timer_Timeout False, CS_Enable, Transmit [0x05] True, Receive 1 [1] True, CS_Disable,
            Timer_Timeout True, RTT_Printf 0x20, ManageEventError True 0x20], dev = 2\<rparr>)"
    using busy_erase [where addr = "0x012345" and sz = 4096 and limit = 1
        and opc = "0x20" and ?t0.0 = "[]" and n = 0]
    by (simp add: idle_def ev f CMD_SECTOR_ERASE_def)
  have block: "IS25LP080D_Erase (stub True 1 0x01) 0x012345 65536 idle =
       Some (Inr IS25LP080D_ERROR,
         \<lparr>trace = [CS_Enable, Transmit [0x06] True, CS_Disable,
            CS_Enable, Transmit [0xD8, 0x01, 0x23, 0x45] True, CS_Disable, Load_Timer,
            Timer_Timeout False, CS_Enable, Transmit [0x05] True, Receive 1 [1] True, CS_Disable,
            Timer_Timeout True, RTT_Printf 0xD8, ManageEventError True 0xD8], dev = 2\<rparr>)"
    using busy_erase [where addr = "0x012345" and sz = 65536 and limit = 1
        and opc = "0xD8" and ?t0.0 = "[]" and n = 0]
    by (simp add: idle_def ev f CMD_BLOCK_ERASE_def)
  have first: "IS25LP080D_WaitWhileBusy (stub True 0 0x01) 0x20 idle =
       Some (IS25LP080D_ERROR,
         \<lparr>trace = [Load_Timer, Timer_Timeout True, RTT_Printf 0x20, ManageEventError True 0x20],
          dev = 1\<rparr>)"
    using at_first_check [where S = "stub True 0 0x01" and w = idle and memOpcode = "0x20" and dt = 1]
    by (simp add: idle_def stub_def)
  have wt: "IS25LP080D_WaitWhileBusy (stub True 2 0x01) CMD_PAGE_PROGRAM idle =
       Some (IS25LP080D_ERROR, wait_timed_out)"
    using busy_wait [where limit = 2 and memOpcode = CMD_PAGE_PROGRAM and ?t0.0 = "[]" and n = 0]
    by (simp add: idle_def wait_timed_out_def ev two CMD_PAGE_PROGRAM_def)
  from wait_ok [OF wt]
  obtain t2 where t2: "trace wait_timed_out = trace idle @ t2"
    and r2: "reported CMD_PAGE_PROGRAM t2" by blast
  from t2 have t2': "t2 = trace wait_timed_out" by (simp add: idle_def)
  have "timed_out (trace wait_timed_out)"
    by (simp add: wait_timed_out_def timed_out_def)
  with r2 t2' have hk2: "hooks (trace wait_timed_out) =
      [RTT_Printf 0x02, ManageEventError True 0x02]"
    by (simp add: reported_def CMD_PAGE_PROGRAM_def)
  let ?E = "stub True 0 0x01"
  have first': "IS25LP080D_WaitWhileBusy ?E c \<lparr>trace = t, dev = 0\<rparr> =
       Some (IS25LP080D_ERROR,
         \<lparr>trace = t @ [Load_Timer, Timer_Timeout True, RTT_Printf c, ManageEventError True c],
          dev = 1\<rparr>)" for c t
    using at_first_check [where S = ?E and w = "\<lparr>trace = t, dev = 0\<rparr>" and memOpcode = c
        and dt = 1]
    by (simp add: stub_def)
  have sent: "IS25LP080D_Program ?E 0x012345 (Some [0xAA, 0xBB]) 2 idle =
      returned (IS25LP080D_WaitWhileBusy ?E CMD_PAGE_PROGRAM
        \<lparr>trace = [CS_Enable, Transmit [0x06] True, CS_Disable,
            CS_Enable, Transmit [0x02, 0x01, 0x23, 0x45] True, Transmit [0xAA, 0xBB] True,
            CS_Disable], dev = 0\<rparr>)"
    using program_sent' [where S = ?E and w = idle and addr = "0x012345"
        and sz = 2 and buf = "[0xAA, 0xBB]" and da = 0 and db = 0 and dc = 0]
    by (simp add: idle_def stub_def ev f CMD_PAGE_PROGRAM_def CMD_WRITE_ENABLE_def)
  have prog0: "IS25LP080D_Program ?E 0x012345 (Some [0xAA, 0xBB]) 2 idle =
       Some (Inr IS25LP080D_ERROR,
         \<lparr>trace = [CS_Enable, Transmit [0x06] True, CS_Disable,
            CS_Enable, Transmit [0x02, 0x01, 0x23, 0x45] True, Transmit [0xAA, 0xBB] True,
            CS_Disable,
            Load_Timer, Timer_Timeout True, RTT_Printf 0x02, ManageEventError True 0x02],
          dev = 1\<rparr>)"
    by (simp add: sent first' returned_def CMD_PAGE_PROGRAM_def)
  have sent_block: "IS25LP080D_Erase ?E 0x012345 65536 idle =
      returned (IS25LP080D_WaitWhileBusy ?E 0xD8
        \<lparr>trace = [CS_Enable, Transmit [0x06] True, CS_Disable,
            CS_Enable, Transmit [0xD8, 0x01, 0x23, 0x45] True, CS_Disable], dev = 0\<rparr>)"
    using erase_sent' [where S = ?E and w = idle and addr = "0x012345"
        and sz = 65536 and opc = "0xD8" and da = 0 and db = 0]
    by (simp add: idle_def stub_def ev f CMD_BLOCK_ERASE_def CMD_WRITE_ENABLE_def)
  have block0: "IS25LP080D_Erase ?E 0x012345 65536 idle =
       Some (Inr IS25LP080D_ERROR,
         \<lparr>trace = [CS_Enable, Transmit [0x06] True, CS_Disable,
            CS_Enable, Transmit [0xD8, 0x01, 0x23, 0x45] True, CS_Disable,
            Load_Timer, Timer_Timeout True, RTT_Printf 0xD8, ManageEventError True 0xD8],
          dev = 1\<rparr>)"
    by (simp add: sent_block first' returned_def)
  from erase_ok [OF erase_done_run]
  obtain u where u: "trace erase_done = trace idle @ u" and "hooks u = []" by auto
  then have quiet: "hooks (trace erase_done) = []" by (simp add: idle_def)
  from prog tmo hk sector block first wt hk2 prog0 block0 erase_done_run quiet
  show ?thesis by simp
qed

section \<open>Properties of the file record pool\<close>

declare scan_free.simps [simp del] clear_words.simps [simp del] clear_bytes.simps [simp del]
  init_descr.simps [simp del]

subsection \<open>Loads and stores\<close>

lemma length_store8 [simp]: "length (store8 a v m) = length m"
  by (simp add: store8_def)

lemma length_store32 [simp]: "length (store32 a v m) = length m"
  by (simp add: store32_def)

lemma nth_store8: "store8 a v m ! k = (if k = a \<and> a < length m then v else m ! k)"
  by (cases "a < length m") (auto simp add: store8_def nth_list_update list_update_beyond)

lemma nth_store32:
  "a + 4 \<le> length m \<Longrightarrow>
     store32 a v m ! k = (if a \<le> k \<and> k < a + 4 then split32_b v (k - a) else m ! k)"
  by (auto simp add: store32_def nth_list_update)

lemma nth_store32_other: "k < a \<or> a + 4 \<le> k \<Longrightarrow> store32 a v m ! k = m ! k"
  by (auto simp add: store32_def nth_list_update)

lemma split32_b_zero [simp]: "split32_b 0 k = 0"
  by (simp add: split32_b_def)

lemma join32_split32: "join32 (split32_b v 0) (split32_b v 1) (split32_b v 2) (split32_b v 3) = v"
proof (rule bit_word_eqI)
  fix n assume "n < LENGTH(32)"
  then have n: "n < 32" by simp
  consider "n < 8" | "8 \<le> n" "n < 16" | "16 \<le> n" "n < 24" | "24 \<le> n" "n < 32"
    using n by linarith
  then show "bit (join32 (split32_b v 0) (split32_b v 1) (split32_b v 2) (split32_b v 3)) n = bit v n"
    by cases (auto simp add: split32_b_def join32_def bit_simps)
qed

lemma load32_store32_same: "a + 4 \<le> length m \<Longrightarrow> load32 (store32 a v m) a = v"
  using join32_split32 [of v] by (simp add: load32_def nth_store32)

lemma load32_store32_other:
  "a' + 4 \<le> a \<or> a + 4 \<le> a' \<Longrightarrow> load32 (store32 a v m) a' = load32 m a'"
  by (auto simp add: load32_def nth_store32_other)

lemma load32_store8_other:
  "a < a' \<or> a' + 4 \<le> a \<Longrightarrow> load32 (store8 a v m) a' = load32 m a'"
  by (auto simp add: load32_def nth_store8)

lemma load8_store8_same: "a < length m \<Longrightarrow> load8 (store8 a v m) a = v"
  by (simp add: load8_def nth_store8)

lemma load8_store32_other: "k < a \<or> a + 4 \<le> k \<Longrightarrow> load8 (store32 a v m) k = load8 m k"
  by (simp add: load8_def nth_store32_other)

subsection \<open>Clearing a record\<close>

lemma length_clear_words [simp]: "length (clear_words n m cnt) = length m"
  by (induction n m cnt rule: clear_words.induct) (simp add: clear_words.simps)

lemma length_clear_bytes [simp]: "length (clear_bytes n m cnt) = length m"
  by (induction n m cnt rule: clear_bytes.induct) (simp add: clear_bytes.simps)

lemma nth_clear_words:
  "length m = n \<Longrightarrow>
     clear_words n m cnt ! k = (if 4 * cnt \<le> k \<and> k < 4 * (n div 4) then 0 else m ! k)"
proof (induction n m cnt rule: clear_words.induct)
  case (1 n m cnt)
  show ?case
  proof (cases "cnt < n div 4")
    case True
    then have fits: "4 * cnt + 4 \<le> length m" using 1(2) by simp
    from True 1 have "clear_words n m cnt ! k =
        (if 4 * (cnt + 1) \<le> k \<and> k < 4 * (n div 4) then 0 else store32 (4 * cnt) 0 m ! k)"
      by (simp add: clear_words.simps [of n m cnt])
    with fits True show ?thesis
      by (auto simp add: nth_store32)
  next
    case False
    then show ?thesis by (auto simp add: clear_words.simps [of n m cnt])
  qed
qed

lemma nth_clear_bytes:
  "clear_bytes n m cnt ! k = (if cnt \<le> k \<and> k < n mod 4 \<and> k < length m then 0 else m ! k)"
proof (induction n m cnt rule: clear_bytes.induct)
  case (1 n m cnt)
  show ?case
  proof (cases "cnt < n mod 4")
    case True
    with 1 have "clear_bytes n m cnt ! k =
        (if cnt + 1 \<le> k \<and> k < n mod 4 \<and> k < length m then 0 else store8 cnt 0 m ! k)"
      by (simp add: clear_bytes.simps [of n m cnt])
    with True show ?thesis
      by (auto simp add: nth_store8)
  next
    case False
    then show ?thesis by (auto simp add: clear_bytes.simps [of n m cnt])
  qed
qed

lemma clear_record_zero:
  assumes "length m = n" and "n mod 4 = 0"
  shows "clear_record n m = replicate n 0"
proof (rule nth_equalityI)
  show "length (clear_record n m) = length (replicate n (0::byte))"
    using assms by (simp add: clear_record_def)
next
  fix k assume "k < length (clear_record n m)"
  then have k: "k < n" using assms by (simp add: clear_record_def)
  from assms(2) have "4 * (n div 4) = n" by presburger
  with k assms show "clear_record n m ! k = replicate n 0 ! k"
    by (simp add: clear_record_def nth_clear_bytes nth_clear_words)
qed

text \<open>Were the size not a multiple of 4, the byte loop would clear the first bytes again and
  leave the last ones as they were.\<close>

lemma clear_record_tail:
  assumes "length m = n" and "4 \<le> n" and "4 * (n div 4) \<le> k" and "k < n"
  shows "clear_record n m ! k = m ! k"
proof -
  from assms(2,3) have "n mod 4 \<le> k" by presburger
  with assms show ?thesis
    by (simp add: clear_record_def nth_clear_bytes nth_clear_words)
qed

lemma align4_mod [simp]: "align4 n mod 4 = 0"
  by (simp add: align4_def)

lemma align4_ge: "n \<le> align4 n"
  by (simp add: align4_def)

lemma sizeof_mod [simp]: "sizeof_fileStructure L mod 4 = 0"
  by (simp add: sizeof_fileStructure_def)

lemma sizeof_bounds:
  "off_descr L + 96 \<le> sizeof_fileStructure L" "off_allocated < off_descr L"
  "off_fileCfg L = off_descr L + 84" "off_allocated = 92"
  using align4_ge [of "off_file L + sizeof_lfs_file L"] align4_ge [of "off_buffer + CP23LFS_CACHE_SIZE L"]
  by (simp_all add: sizeof_fileStructure_def off_file_def off_fileCfg_def off_descr_def
      off_buffer_def off_allocated_def CP23LFS_ATTR_NUM_def sizeof_lfs_attr_def)

subsection \<open>The descriptor table\<close>

lemma length_init_descr [simp]: "length (init_descr L rv m cnt) = length m"
  by (induction L rv m cnt rule: init_descr.induct) (simp add: init_descr.simps Let_def)

lemma descr_at_mono: "j < k \<Longrightarrow> descr_at L j + 12 \<le> descr_at L k"
  by (simp add: descr_at_def sizeof_lfs_attr_def)

lemma descr_at_end: "k < CP23LFS_ATTR_NUM \<Longrightarrow> descr_at L k + 12 \<le> off_descr L + 84"
  by (simp add: descr_at_def sizeof_lfs_attr_def CP23LFS_ATTR_NUM_def)

lemma nth_init_descr_other:
  "k < descr_at L cnt \<or> off_descr L + 84 \<le> k \<Longrightarrow> init_descr L rv m cnt ! k = m ! k"
proof (induction L rv m cnt rule: init_descr.induct)
  case (1 L rv m cnt)
  show ?case
  proof (cases "cnt < CP23LFS_ATTR_NUM")
    case True
    from 1(2) descr_at_mono [of cnt "cnt + 1" L] descr_at_end [OF True, of L]
    have far: "k < descr_at L cnt \<or> descr_at L cnt + 12 \<le> k"
      and nxt: "k < descr_at L (cnt + 1) \<or> off_descr L + 84 \<le> k" by auto
    from True 1(1) [OF True refl refl refl nxt] far show ?thesis
      by (auto simp add: init_descr.simps [of L rv m cnt] Let_def nth_store32_other nth_store8)
  next
    case False
    then show ?thesis by (simp add: init_descr.simps [of L rv m cnt])
  qed
qed

lemma init_descr_entry:
  assumes "off_descr L + 84 \<le> length m" and "cnt \<le> j" and "j < CP23LFS_ATTR_NUM"
  shows "descr_type L (init_descr L rv m cnt) j = of_nat j
     \<and> descr_buffer L (init_descr L rv m cnt) j = rv + of_nat (parOffset ! j)
     \<and> descr_size L (init_descr L rv m cnt) j = of_nat (parSize ! j)"
  using assms
proof (induction L rv m cnt rule: init_descr.induct)
  case (1 L rv m cnt)
  from 1(3,4) have run: "cnt < CP23LFS_ATTR_NUM" by simp
  define m1 where "m1 = store8 (descr_at L cnt) (of_nat cnt) m"
  define m2 where "m2 = store32 (descr_at L cnt + 4) (rv + of_nat (parOffset ! cnt)) m1"
  define m3 where "m3 = store32 (descr_at L cnt + 8) (of_nat (parSize ! cnt)) m2"
  have unfold: "init_descr L rv m cnt = init_descr L rv m3 (cnt + 1)"
    using run by (simp add: init_descr.simps [of L rv m cnt] Let_def m1_def m2_def m3_def)
  have len: "off_descr L + 84 \<le> length m3"
    using 1(2) by (simp add: m1_def m2_def m3_def)
  show ?case
  proof (cases "j = cnt")
    case False
    with 1(3) have "cnt + 1 \<le> j" by simp
    from 1(1) [OF run m1_def m2_def m3_def len this 1(4)]
    show ?thesis by (simp add: unfold)
  next
    case True
    from descr_at_end [OF run, of L] 1(2)
    have fits: "descr_at L cnt + 12 \<le> length m" by simp
    have keep: "init_descr L rv m3 (Suc cnt) ! k = m3 ! k" if "k < descr_at L cnt + 12" for k
      using that descr_at_mono [of cnt "Suc cnt" L] by (simp add: nth_init_descr_other)
    have t: "load8 m3 (descr_at L cnt) = of_nat cnt"
      using fits by (simp add: m3_def m2_def m1_def load8_store32_other load8_store8_same)
    have b: "load32 m3 (descr_at L cnt + 4) = rv + of_nat (parOffset ! cnt)"
      using fits by (simp add: m3_def m2_def m1_def load32_store32_other load32_store32_same)
    have s: "load32 m3 (descr_at L cnt + 8) = of_nat (parSize ! cnt)"
      using fits by (simp add: m3_def m2_def m1_def load32_store32_same)
    from t b s True show ?thesis
      by (simp add: unfold descr_type_def descr_buffer_def descr_size_def load8_def load32_def keep)
  qed
qed

subsection \<open>The file configuration\<close>

lemma length_init_fileCfg [simp]: "length (init_fileCfg L rv m) = length m"
  by (simp add: init_fileCfg_def Let_def)

lemma nth_init_fileCfg_other:
  "k < off_fileCfg L \<or> off_fileCfg L + 12 \<le> k \<Longrightarrow> init_fileCfg L rv m ! k = m ! k"
  by (auto simp add: init_fileCfg_def Let_def nth_store32_other)

lemma init_fileCfg_fields:
  assumes "off_fileCfg L + 12 \<le> length m"
  shows "fileCfg_attrs L (init_fileCfg L rv m) = rv + of_nat (off_descr L)
     \<and> fileCfg_attr_count L (init_fileCfg L rv m) = of_nat CP23LFS_ATTR_NUM
     \<and> fileCfg_buffer L (init_fileCfg L rv m) = rv + of_nat off_buffer"
  using assms
  by (simp add: init_fileCfg_def Let_def fileCfg_attrs_def fileCfg_attr_count_def
      fileCfg_buffer_def load32_store32_other load32_store32_same)

subsection \<open>The scan\<close>

lemma set_allocated_twice [simp]: "set_allocated b (set_allocated b m) = set_allocated b m"
  by (simp add: set_allocated_def store8_def)

lemma length_set_allocated [simp]: "length (set_allocated b m) = length m"
  by (simp add: set_allocated_def)

lemma scan_free_Some:
  "scan_free p cnt = (Some i, p') \<Longrightarrow> length p = CP23LFS_FILES_MAX \<Longrightarrow>
     cnt \<le> i \<and> i < CP23LFS_FILES_MAX \<and> \<not> allocated (p ! i)
     \<and> p' = p[i := set_allocated True (p ! i)]"
proof (induction p cnt rule: scan_free.induct)
  case (1 p cnt)
  show ?case
  proof (cases "cnt < CP23LFS_FILES_MAX \<and> allocated (p ! cnt)")
    case True
    with 1(2) have "scan_free p (cnt + 1) = (Some i, p')"
      by (simp add: scan_free.simps [of p cnt])
    from 1(1) [OF _ _ this 1(3)] True show ?thesis by auto
  next
    case False
    with 1(2,3) show ?thesis
      by (auto simp add: scan_free.simps [of p cnt] Let_def split: if_splits)
  qed
qed

lemma scan_free_None:
  "scan_free p cnt = (None, p') \<Longrightarrow>
     p' = p \<and> (\<forall>j. cnt \<le> j \<and> j < CP23LFS_FILES_MAX \<longrightarrow> allocated (p ! j))"
proof (induction p cnt rule: scan_free.induct)
  case (1 p cnt)
  show ?case
  proof (cases "cnt < CP23LFS_FILES_MAX \<and> allocated (p ! cnt)")
    case True
    with 1(2) have "scan_free p (cnt + 1) = (None, p')"
      by (simp add: scan_free.simps [of p cnt])
    from 1(1) [OF _ _ this] True have "p' = p"
      and later: "\<forall>j. cnt + 1 \<le> j \<and> j < CP23LFS_FILES_MAX \<longrightarrow> allocated (p ! j)" by auto
    have "allocated (p ! j)" if "cnt \<le> j" "j < CP23LFS_FILES_MAX" for j
      using that later True by (cases "j = cnt") auto
    with \<open>p' = p\<close> show ?thesis by blast
  next
    case False
    with 1(2) show ?thesis
      by (auto simp add: scan_free.simps [of p cnt] Let_def split: if_splits)
  qed
qed

lemma scan_free_first:
  "scan_free p cnt = (Some i, p') \<Longrightarrow> cnt \<le> j \<Longrightarrow> j < i \<Longrightarrow> allocated (p ! j)"
proof (induction p cnt rule: scan_free.induct)
  case (1 p cnt)
  show ?case
  proof (cases "cnt < CP23LFS_FILES_MAX \<and> allocated (p ! cnt)")
    case True
    with 1(2) have nxt: "scan_free p (cnt + 1) = (Some i, p')"
      by (simp add: scan_free.simps [of p cnt])
    show ?thesis
    proof (cases "j = cnt")
      case True
      with \<open>cnt < CP23LFS_FILES_MAX \<and> allocated (p ! cnt)\<close> show ?thesis by simp
    next
      case False
      with 1(3) have "cnt + 1 \<le> j" by simp
      from 1(1) [OF _ _ nxt this 1(4)] True show ?thesis by simp
    qed
  next
    case False
    with 1(2,3,4) show ?thesis
      by (auto simp add: scan_free.simps [of p cnt] Let_def split: if_splits)
  qed
qed

lemma scan_free_at:
  "cnt < CP23LFS_FILES_MAX \<Longrightarrow> \<not> allocated (p ! cnt) \<Longrightarrow> cnt < length p \<Longrightarrow>
     scan_free p cnt = (Some cnt, p[cnt := set_allocated True (p ! cnt)])"
  by (simp add: scan_free.simps [of p cnt] Let_def)

subsection \<open>Acquiring a record\<close>


lemma pool_ok_nth: "pool_ok L p \<Longrightarrow> i < CP23LFS_FILES_MAX \<Longrightarrow> length (p ! i) = sizeof_fileStructure L"
  by (simp add: pool_ok_def list_all_length)

lemma pool_ok_length: "pool_ok L p \<Longrightarrow> length p = CP23LFS_FILES_MAX"
  by (simp add: pool_ok_def)

lemma acquire_Some:
  assumes ok: "pool_ok L p" and some: "fst (CP23_GetFileStructure L p) = Some i"
  shows "i < CP23LFS_FILES_MAX \<and> \<not> allocated (p ! i) \<and> (\<forall>j<i. allocated (p ! j))
     \<and> snd (CP23_GetFileStructure L p) =
        p[i := init_fileCfg L (rec_addr L i)
                (init_descr L (rec_addr L i) (replicate (sizeof_fileStructure L) 0) 0)]"
proof -
  obtain h p' where scan: "scan_free p 0 = (h, p')" by (cases "scan_free p 0")
  with some have h: "h = Some i"
    by (cases h) (simp_all add: CP23_GetFileStructure_def Let_def)
  from scan_free_Some [OF scan [unfolded h] pool_ok_length [OF ok]]
  have i: "i < CP23LFS_FILES_MAX" and free: "\<not> allocated (p ! i)"
    and p': "p' = p[i := set_allocated True (p ! i)]" by auto
  from scan_free_first [OF scan [unfolded h]] have first: "\<forall>j<i. allocated (p ! j)" by simp
  from i ok have len: "length (p' ! i) = sizeof_fileStructure L"
    by (simp add: p' pool_ok_length pool_ok_nth)
  from len have "clear_record (sizeof_fileStructure L) (p' ! i) = replicate (sizeof_fileStructure L) 0"
    by (rule clear_record_zero) simp
  with scan h p' have "snd (CP23_GetFileStructure L p) =
        p[i := init_fileCfg L (rec_addr L i)
                (init_descr L (rec_addr L i) (replicate (sizeof_fileStructure L) 0) 0)]"
    by (simp add: CP23_GetFileStructure_def Let_def)
  with i free first show ?thesis by blast
qed

lemma acquire_None:
  assumes "fst (CP23_GetFileStructure L p) = None"
  shows "snd (CP23_GetFileStructure L p) = p \<and> (\<forall>j<CP23LFS_FILES_MAX. allocated (p ! j))"
proof -
  obtain h p' where scan: "scan_free p 0 = (h, p')" by (cases "scan_free p 0")
  with assms have h: "h = None"
    by (cases h) (simp_all add: CP23_GetFileStructure_def Let_def)
  from scan_free_None [OF scan [unfolded h]] scan h show ?thesis
    by (simp add: CP23_GetFileStructure_def)
qed


lemma length_fresh [simp]: "length (fresh L i) = sizeof_fileStructure L"
  by (simp add: fresh_def)

lemma fresh_outside:
  assumes "k < off_descr L \<or> off_descr L + 96 \<le> k" and "k < sizeof_fileStructure L"
  shows "fresh L i ! k = 0"
proof -
  from assms(1) have "k < off_fileCfg L \<or> off_fileCfg L + 12 \<le> k"
    and "k < descr_at L 0 \<or> off_descr L + 84 \<le> k"
    by (auto simp add: sizeof_bounds descr_at_def)
  with assms(2) show ?thesis
    by (simp add: fresh_def nth_init_fileCfg_other nth_init_descr_other)
qed

lemma fresh_not_allocated: "\<not> allocated (fresh L i)"
  using fresh_outside [of off_allocated L i] sizeof_bounds(1,2) [of L]
  by (simp add: allocated_def load8_def)

lemma fresh_descr:
  assumes "k < CP23LFS_ATTR_NUM"
  shows "descr_type L (fresh L i) k = of_nat k
     \<and> descr_buffer L (fresh L i) k = rec_addr L i + of_nat (parOffset ! k)
     \<and> descr_size L (fresh L i) k = of_nat (parSize ! k)"
proof -
  let ?m = "init_descr L (rec_addr L i) (replicate (sizeof_fileStructure L) 0) 0"
  have keep: "init_fileCfg L (rec_addr L i) ?m ! a = ?m ! a" if "a < descr_at L k + 12" for a
    using that descr_at_end [OF assms, of L]
    by (simp add: nth_init_fileCfg_other sizeof_bounds)
  have "off_descr L + 84 \<le> length (replicate (sizeof_fileStructure L) (0::byte))"
    using sizeof_bounds(1) [of L] by simp
  from init_descr_entry [OF this _ assms, of 0 "rec_addr L i"] show ?thesis
    by (simp add: fresh_def descr_type_def descr_buffer_def descr_size_def load8_def load32_def keep)
qed

lemma fresh_fileCfg:
  "fileCfg_attrs L (fresh L i) = rec_addr L i + of_nat (off_descr L)
     \<and> fileCfg_attr_count L (fresh L i) = of_nat CP23LFS_ATTR_NUM
     \<and> fileCfg_buffer L (fresh L i) = rec_addr L i + of_nat off_buffer"
  unfolding fresh_def
  by (rule init_fileCfg_fields) (use sizeof_bounds(1,3) [of L] in simp)


lemma scan_free_finds:
  "cnt \<le> i \<Longrightarrow> i < CP23LFS_FILES_MAX \<Longrightarrow> i < length p \<Longrightarrow> \<not> allocated (p ! i) \<Longrightarrow>
     \<forall>j. cnt \<le> j \<and> j < i \<longrightarrow> allocated (p ! j) \<Longrightarrow>
     scan_free p cnt = (Some i, p[i := set_allocated True (p ! i)])"
proof (induction p cnt rule: scan_free.induct)
  case (1 p cnt)
  show ?case
  proof (cases "cnt = i")
    case True
    with 1(3,4,5) show ?thesis by (simp add: scan_free_at)
  next
    case False
    with 1(2) have lt: "cnt < i" by simp
    with 1(6) have a: "allocated (p ! cnt)" by simp
    from lt 1(3) have c: "cnt < CP23LFS_FILES_MAX" by simp
    from lt have "cnt + 1 \<le> i" by simp
    from 1(1) [OF c _ this 1(3,4,5)] a 1(6) c show ?thesis
      by (simp add: scan_free.simps [of p cnt])
  qed
qed

lemma acquire_first_free:
  assumes "pool_ok L p" and "i < CP23LFS_FILES_MAX" and "\<not> allocated (p ! i)"
    and "\<forall>j<i. allocated (p ! j)"
  shows "CP23_GetFileStructure L p = (Some i, p[i := fresh L i])"
proof -
  from assms have scan: "scan_free p 0 = (Some i, p[i := set_allocated True (p ! i)])"
    by (intro scan_free_finds) (simp_all add: pool_ok_length)
  from assms(1,2) have "length (set_allocated True (p ! i)) = sizeof_fileStructure L"
    by (simp add: pool_ok_nth)
  then have "clear_record (sizeof_fileStructure L) (set_allocated True (p ! i))
      = replicate (sizeof_fileStructure L) 0"
    by (rule clear_record_zero) simp
  with scan assms(1,2) show ?thesis
    by (simp add: CP23_GetFileStructure_def Let_def fresh_def pool_ok_length)
qed

lemma pool_ok_update:
  "pool_ok L p \<Longrightarrow> length m = sizeof_fileStructure L \<Longrightarrow> pool_ok L (p[i := m])"
  by (cases "i < length p") (auto simp add: pool_ok_def list_all_length nth_list_update)

lemma pool_ok_free [simp]: "pool_ok L (free_pool L)"
  by (simp add: pool_ok_def free_pool_def list_all_length)

lemma not_allocated_zero: "\<not> allocated (replicate (sizeof_fileStructure L) 0)"
  using sizeof_bounds(1,2) [of L] by (simp add: allocated_def load8_def)

lemma acquire_times_slot_0:
  "pool_ok L p \<Longrightarrow> \<not> allocated (p ! 0) \<Longrightarrow> acquire_times L n p = replicate n (Some 0)"
proof (induction n arbitrary: p)
  case 0
  show ?case by simp
next
  case (Suc n)
  from acquire_first_free [OF Suc.prems(1) _ Suc.prems(2)]
  have acq: "CP23_GetFileStructure L p = (Some 0, p[0 := fresh L 0])"
    by (simp add: CP23LFS_FILES_MAX_def)
  have "pool_ok L (p[0 := fresh L 0])"
    using Suc.prems(1) by (simp add: pool_ok_update)
  moreover have "\<not> allocated (p[0 := fresh L 0] ! 0)"
    using Suc.prems(1) by (simp add: pool_ok_length CP23LFS_FILES_MAX_def fresh_not_allocated)
  ultimately have "acquire_times L n (p[0 := fresh L 0]) = replicate n (Some 0)"
    by (rule Suc.IH)
  with acq show ?case by simp
qed

text \<open>
  C1 says that eight acquisitions from the all-free pool return eight distinct slots,
  each left in the allocated state, and that the ninth returns nothing. The code does not
  do this. It sets \<open>system.allocated\<close> in the scan and then clears the whole record, the
  flag included, so the slot it returns is free again: on the all-free pool the first
  call returns slot 0 and leaves it free, and nine calls in a row return slot 0 nine
  times.
\<close>

theorem acquire_returns_slot_0_again:
  "acquire_times example_layout 9 (free_pool example_layout) = replicate 9 (Some 0)
   \<and> fst (CP23_GetFileStructure example_layout (free_pool example_layout)) = Some 0
   \<and> \<not> allocated (snd (CP23_GetFileStructure example_layout (free_pool example_layout)) ! 0)"
proof -
  let ?L = example_layout
  have free0: "\<not> allocated (free_pool ?L ! 0)"
    by (simp add: free_pool_def CP23LFS_FILES_MAX_def not_allocated_zero)
  from acquire_first_free [OF pool_ok_free _ free0]
  have acq: "CP23_GetFileStructure ?L (free_pool ?L) = (Some 0, (free_pool ?L)[0 := fresh ?L 0])"
    by (simp add: CP23LFS_FILES_MAX_def)
  have "\<not> allocated ((free_pool ?L)[0 := fresh ?L 0] ! 0)"
    by (simp add: free_pool_def CP23LFS_FILES_MAX_def fresh_not_allocated)
  with acq acquire_times_slot_0 [OF pool_ok_free free0, of 9] show ?thesis by simp
qed

text \<open>
  C2. A successful acquisition of slot \<open>i\<close> clears every byte of the record (the size of
  the record is a multiple of 4, so the word loop covers it all and the byte loop has no
  remainder to run on) and then writes the descriptor table and the file configuration
  over the zero bytes: for each of the 7 attribute identifiers \<open>k\<close>, entry \<open>k\<close> has
  type \<open>k\<close>, the buffer pointer record address + \<open>parOffset[k]\<close> and the size
  \<open>parSize[k]\<close>, the offsets and sizes being those of \<open>dId\<close>, \<open>date\<close>, \<open>time\<close>,
  \<open>flags\<close>, \<open>authorization\<close>, \<open>owner\<close> and \<open>company\<close>. Every byte outside the
  table and the file configuration (96 bytes from \<open>off_descr\<close>) is zero afterwards.
\<close>

theorem acquire_zeroes_and_rebuilds:
  assumes "pool_ok L p" and "fst (CP23_GetFileStructure L p) = Some i"
  shows "clear_record (sizeof_fileStructure L) (set_allocated True (p ! i))
        = replicate (sizeof_fileStructure L) 0
     \<and> snd (CP23_GetFileStructure L p) ! i =
         init_fileCfg L (rec_addr L i)
           (init_descr L (rec_addr L i) (replicate (sizeof_fileStructure L) 0) 0)
     \<and> (\<forall>k < CP23LFS_ATTR_NUM.
           descr_type L (snd (CP23_GetFileStructure L p) ! i) k = of_nat k
         \<and> descr_buffer L (snd (CP23_GetFileStructure L p) ! i) k = rec_addr L i + of_nat (parOffset ! k)
         \<and> descr_size L (snd (CP23_GetFileStructure L p) ! i) k = of_nat (parSize ! k))
     \<and> (\<forall>a < sizeof_fileStructure L. a < off_descr L \<or> off_descr L + 96 \<le> a \<longrightarrow>
           snd (CP23_GetFileStructure L p) ! i ! a = 0)
     \<and> parOffset = [0, 2, 13, 22, 23, 24, 56] \<and> parSize = [2, 11, 9, 1, 1, 32, 32]"
proof -
  from acquire_Some [OF assms] have i: "i < CP23LFS_FILES_MAX"
    and res: "snd (CP23_GetFileStructure L p) = p[i := fresh L i]"
    by (simp_all add: fresh_def)
  from i assms(1) have m: "snd (CP23_GetFileStructure L p) ! i = fresh L i"
    by (simp add: res pool_ok_length)
  from i assms(1) have "length (set_allocated True (p ! i)) = sizeof_fileStructure L"
    by (simp add: pool_ok_nth)
  then have z: "clear_record (sizeof_fileStructure L) (set_allocated True (p ! i))
        = replicate (sizeof_fileStructure L) 0"
    by (rule clear_record_zero) simp
  have tabs: "parOffset = [0, 2, 13, 22, 23, 24, 56] \<and> parSize = [2, 11, 9, 1, 1, 32, 32]"
    by (simp add: parOffset_def parSize_def CP23LFS_DATE_LEN_def CP23LFS_TIME_LEN_def
        CP23LFS_OWNER_LEN_def CP23LFS_COMPANY_LEN_def)
  from z tabs show ?thesis
    unfolding m by (auto simp add: fresh_descr fresh_outside simp add: fresh_def [symmetric])
qed

theorem acquire_zeroes_and_rebuilds_witness:
  "pool_ok example_layout (free_pool example_layout)
   \<and> fst (CP23_GetFileStructure example_layout (free_pool example_layout)) = Some 0
   \<and> descr_type example_layout (snd (CP23_GetFileStructure example_layout (free_pool example_layout)) ! 0) 2 = 2
   \<and> descr_buffer example_layout (snd (CP23_GetFileStructure example_layout (free_pool example_layout)) ! 0) 2
        = 0x2000000D
   \<and> descr_size example_layout (snd (CP23_GetFileStructure example_layout (free_pool example_layout)) ! 0) 2 = 9
   \<and> snd (CP23_GetFileStructure example_layout (free_pool example_layout)) ! 0 ! 92 = 0"
proof -
  let ?L = example_layout
  have free0: "\<not> allocated (free_pool ?L ! 0)"
    by (simp add: free_pool_def CP23LFS_FILES_MAX_def not_allocated_zero)
  from acquire_first_free [OF pool_ok_free _ free0]
  have acq: "fst (CP23_GetFileStructure ?L (free_pool ?L)) = Some 0"
    by (simp add: CP23LFS_FILES_MAX_def)
  have sz: "sizeof_fileStructure ?L = 532" "off_descr ?L = 352"
    by (simp_all add: sizeof_fileStructure_def off_file_def off_fileCfg_def off_descr_def
        off_buffer_def align4_def example_layout_def CP23LFS_ATTR_NUM_def sizeof_lfs_attr_def)
  let ?m = "snd (CP23_GetFileStructure ?L (free_pool ?L)) ! 0"
  from acquire_zeroes_and_rebuilds [OF pool_ok_free acq]
  have d: "\<forall>k < CP23LFS_ATTR_NUM. descr_type ?L ?m k = of_nat k
         \<and> descr_buffer ?L ?m k = rec_addr ?L 0 + of_nat (parOffset ! k)
         \<and> descr_size ?L ?m k = of_nat (parSize ! k)"
    and z: "\<forall>a < sizeof_fileStructure ?L. a < off_descr ?L \<or> off_descr ?L + 96 \<le> a \<longrightarrow> ?m ! a = 0"
    and tabs: "parOffset = [0, 2, 13, 22, 23, 24, 56]" "parSize = [2, 11, 9, 1, 1, 32, 32]"
    by blast+
  have base: "rec_addr ?L 0 = 0x20000000"
    by (simp add: rec_addr_def example_layout_def)
  from d have "descr_type ?L ?m 2 = 2 \<and> descr_buffer ?L ?m 2 = 0x2000000D \<and> descr_size ?L ?m 2 = 9"
    by (simp add: CP23LFS_ATTR_NUM_def tabs base)
  moreover from z have "?m ! 92 = 0"
    by (simp add: sz)
  ultimately show ?thesis using acq by simp
qed

text \<open>
  C10. Releasing a valid handle to an allocated slot returns normally, clears the
  allocated flag of that slot and changes nothing else: every other record of the pool
  and every other byte of the released record (\<open>dId\<close>, \<open>date\<close>, \<open>time\<close>, \<open>flags\<close>,
  \<open>authorization\<close>, \<open>owner\<close>, \<open>company\<close>, \<open>size\<close> and the rest of \<open>system\<close>) is
  as before, so the record is not zeroed.
\<close>

theorem release_clears_only_flag:
  assumes "pool_ok L p" and "i < CP23LFS_FILES_MAX" and "allocated (p ! i)"
  shows "\<exists>p'. CP23_ReleaseFileStructure (Some i) p = Inr p'
     \<and> pool_ok L p' \<and> \<not> allocated (p' ! i)
     \<and> (\<forall>j. j \<noteq> i \<longrightarrow> p' ! j = p ! j)
     \<and> (\<forall>a. a \<noteq> off_allocated \<longrightarrow> p' ! i ! a = p ! i ! a)"
proof -
  let ?p' = "p[i := set_allocated False (p ! i)]"
  from assms(1,2) have len: "length (p ! i) = sizeof_fileStructure L" "i < length p"
    by (simp_all add: pool_ok_nth pool_ok_length)
  with sizeof_bounds(1,2) [of L] have "off_allocated < length (p ! i)" by simp
  then have "\<not> allocated (set_allocated False (p ! i))"
    by (simp add: allocated_def set_allocated_def load8_store8_same)
  moreover have "pool_ok L ?p'" using assms(1) len by (simp add: pool_ok_update)
  moreover have "\<forall>a. a \<noteq> off_allocated \<longrightarrow> set_allocated False (p ! i) ! a = p ! i ! a"
    by (simp add: set_allocated_def nth_store8)
  ultimately show ?thesis
    using len by (simp add: CP23_ReleaseFileStructure_def)
qed

theorem release_clears_only_flag_witness:
  "pool_ok example_layout (used_pool example_layout)
   \<and> allocated (used_pool example_layout ! 3)
   \<and> (\<exists>p'. CP23_ReleaseFileStructure (Some 3) (used_pool example_layout) = Inr p'
        \<and> \<not> allocated (p' ! 3) \<and> p' ! 3 ! 0 = 0x5A \<and> p' ! 3 ! 91 = 0x5A \<and> p' ! 3 ! 93 = 0x5A
        \<and> p' ! 0 = used_pool example_layout ! 0)"
proof -
  let ?L = example_layout
  have sz: "sizeof_fileStructure ?L = 532"
    by (simp add: sizeof_fileStructure_def off_file_def off_fileCfg_def off_descr_def
        off_buffer_def align4_def example_layout_def CP23LFS_ATTR_NUM_def sizeof_lfs_attr_def)
  have ok: "pool_ok ?L (used_pool ?L)"
    by (simp add: used_pool_def pool_ok_update)
  have al: "allocated (used_pool ?L ! 3)"
    by (simp add: used_pool_def free_pool_def CP23LFS_FILES_MAX_def allocated_def
        set_allocated_def load8_store8_same sz off_allocated_def)
  have bytes: "used_pool ?L ! 3 ! 0 = 0x5A \<and> used_pool ?L ! 3 ! 91 = 0x5A \<and> used_pool ?L ! 3 ! 93 = 0x5A"
    by (simp add: used_pool_def free_pool_def CP23LFS_FILES_MAX_def set_allocated_def nth_store8
        sz off_allocated_def)
  from release_clears_only_flag [OF ok _ al] obtain p' where
    "CP23_ReleaseFileStructure (Some 3) (used_pool ?L) = Inr p'" "\<not> allocated (p' ! 3)"
    "\<forall>j. j \<noteq> 3 \<longrightarrow> p' ! j = used_pool ?L ! j"
    "\<forall>a. a \<noteq> off_allocated \<longrightarrow> p' ! 3 ! a = used_pool ?L ! 3 ! a"
    by (auto simp add: CP23LFS_FILES_MAX_def)
  with bytes have "CP23_ReleaseFileStructure (Some 3) (used_pool ?L) = Inr p'
        \<and> \<not> allocated (p' ! 3) \<and> p' ! 3 ! 0 = 0x5A \<and> p' ! 3 ! 91 = 0x5A \<and> p' ! 3 ! 93 = 0x5A
        \<and> p' ! 0 = used_pool ?L ! 0"
    by (simp add: off_allocated_def)
  with ok al show ?thesis by blast
qed

end
